theory Spec2Isabelle
  imports Main "HOL-Library.Log_Nat"
begin

section \<open>Python values used by the decision pipeline\<close>

subsection \<open>Binary64 floats\<close>

text \<open>
  A Python \<^verbatim>\<open>float\<close> is an IEEE-754 binary64 number. Every finite one is a rational,
  so a float is held as the rational it denotes, and each arithmetic operation is the
  exact operation followed by \<open>fl\<close>, rounding to the nearest binary64 value with ties
  to the even significand. All floats of the pipeline lie in \<open>[0, 1]\<close>, so overflow to
  infinity is not modelled; the subnormal range is (exponent clamped at \<open>-1022\<close>).
\<close>

type_synonym pyfloat = rat

definition pow2 :: "int \<Rightarrow> rat" where
  "pow2 k = (if 0 \<le> k then 2 ^ nat k else 1 / 2 ^ nat (- k))"

definition ilog2 :: "rat \<Rightarrow> int" where
  \<comment> \<open>\<open>\<lfloor>log\<^sub>2 q\<rfloor>\<close> of a positive rational, from the bit lengths of its numerator and denominator\<close>
  "ilog2 q =
     (let (a, b) = quotient_of q;
          k = bitlen a - bitlen b
      in if pow2 k \<le> q then k else k - 1)"

definition round_half_even :: "rat \<Rightarrow> int" where
  "round_half_even x =
     (let n = \<lfloor>x\<rfloor>; r = x - of_int n
      in if r < 1 / 2 then n
         else if 1 / 2 < r then n + 1
         else if even n then n else n + 1)"

definition fl :: "rat \<Rightarrow> pyfloat" where
  "fl q =
     (if q = 0 then 0
      else let m = \<bar>q\<bar>;
               e = max (ilog2 m) (- 1022);
               u = pow2 (e - 52)
           in sgn q * of_int (round_half_even (m / u)) * u)"

definition fadd :: "pyfloat \<Rightarrow> pyfloat \<Rightarrow> pyfloat" where
  "fadd a b = fl (a + b)"

definition fsub :: "pyfloat \<Rightarrow> pyfloat \<Rightarrow> pyfloat" where
  "fsub a b = fl (a - b)"

definition fmul :: "pyfloat \<Rightarrow> pyfloat \<Rightarrow> pyfloat" where
  "fmul a b = fl (a * b)"

definition int_truediv :: "int \<Rightarrow> int \<Rightarrow> pyfloat" where
  \<comment> \<open>\<^verbatim>\<open>a / b\<close> on two ints: the correctly rounded quotient (the divisor is never 0 below)\<close>
  "int_truediv a b = fl (of_int a / of_int b)"

definition py_round2 :: "pyfloat \<Rightarrow> pyfloat" where
  \<comment> \<open>\<^verbatim>\<open>round(x, 2)\<close>: the exact value rounded to two decimals, ties to even, then to binary64\<close>
  "py_round2 x = fl (of_int (round_half_even (x * 100)) / 100)"

subsection \<open>Exceptions that escape the pipeline\<close>

datatype pyerror = TypeError | OverflowError

definition bindE :: "pyerror + 'a \<Rightarrow> ('a \<Rightarrow> pyerror + 'b) \<Rightarrow> pyerror + 'b" where
  "bindE m f = (case m of Inl e \<Rightarrow> Inl e | Inr x \<Rightarrow> f x)"

subsection \<open>Datetimes\<close>

text \<open>
  A \<^verbatim>\<open>datetime\<close> is its calendar fields and an optional UTC offset. The fields are held
  as \<open>wall\<close>, the microseconds from 0001-01-01T00:00:00 to the date and time the fields
  display; \<open>utcoffset\<close> is \<open>None\<close> for a naive datetime and the offset in microseconds
  for an aware one. Where the code returns \<^verbatim>\<open>dt.isoformat()\<close> the model carries \<open>dt\<close>.
\<close>

record datetime =
  wall :: int
  utcoffset :: "int option"

definition US_PER_MINUTE :: int where "US_PER_MINUTE = 60000000"
definition US_PER_HOUR :: int where "US_PER_HOUR = 3600000000"
definition US_PER_DAY :: int where "US_PER_DAY = 86400000000"

definition MAX_WALL :: int where
  \<comment> \<open>9999-12-31T23:59:59.999999; \<^verbatim>\<open>date.max.toordinal()\<close> is 3652059\<close>
  "MAX_WALL = 3652059 * 86400000000 - 1"

definition hour :: "datetime \<Rightarrow> int" where
  "hour dt = (wall dt div US_PER_HOUR) mod 24"

definition minute :: "datetime \<Rightarrow> int" where
  "minute dt = (wall dt div US_PER_MINUTE) mod 60"

definition second_us :: "datetime \<Rightarrow> int" where
  \<comment> \<open>seconds and microseconds within the minute, in microseconds\<close>
  "second_us dt = wall dt mod US_PER_MINUTE"

definition date_of :: "datetime \<Rightarrow> int" where
  \<comment> \<open>\<^verbatim>\<open>dt.date()\<close>, as the number of days since 0001-01-01\<close>
  "date_of dt = wall dt div US_PER_DAY"

definition dt_add :: "datetime \<Rightarrow> int \<Rightarrow> pyerror + datetime" where
  \<comment> \<open>\<^verbatim>\<open>dt + timedelta(microseconds=d)\<close>: on the fields, keeping tzinfo\<close>
  "dt_add dt d =
     (let w = wall dt + d
      in if 0 \<le> w \<and> w \<le> MAX_WALL then Inr (dt\<lparr>wall := w\<rparr>) else Inl OverflowError)"

definition replace_hour :: "datetime \<Rightarrow> int \<Rightarrow> datetime" where
  \<comment> \<open>\<^verbatim>\<open>dt.replace(hour=h, minute=0, second=0, microsecond=0)\<close>\<close>
  "replace_hour dt h = dt\<lparr>wall := (wall dt div US_PER_DAY) * US_PER_DAY + h * US_PER_HOUR\<rparr>"

definition dt_le :: "datetime \<Rightarrow> datetime \<Rightarrow> pyerror + bool" where
  \<comment> \<open>\<^verbatim>\<open>a <= b\<close>: instants when both are aware, fields when both are naive\<close>
  "dt_le a b =
     (case (utcoffset a, utcoffset b) of
        (None, None) \<Rightarrow> Inr (wall a \<le> wall b)
      | (Some oa, Some ob) \<Rightarrow> Inr (wall a - oa \<le> wall b - ob)
      | _ \<Rightarrow> Inl TypeError)"

definition dt_ge :: "datetime \<Rightarrow> datetime \<Rightarrow> pyerror + bool" where
  "dt_ge a b = dt_le b a"

definition dt_gt :: "datetime \<Rightarrow> datetime \<Rightarrow> pyerror + bool" where
  "dt_gt a b = bindE (dt_le a b) (\<lambda>r. Inr (\<not> r))"

definition is_leap :: "int \<Rightarrow> bool" where
  "is_leap y = (y mod 4 = 0 \<and> (y mod 100 \<noteq> 0 \<or> y mod 400 = 0))"

definition days_before_year :: "int \<Rightarrow> int" where
  "days_before_year y =
     (let p = y - 1 in p * 365 + p div 4 - p div 100 + p div 400)"

definition days_before_month :: "int \<Rightarrow> int \<Rightarrow> int" where
  "days_before_month y m =
     [0, 31, 59, 90, 120, 151, 181, 212, 243, 273, 304, 334] ! nat (m - 1)
     + (if 2 < m \<and> is_leap y then 1 else 0)"

definition mk_datetime ::
  "int \<Rightarrow> int \<Rightarrow> int \<Rightarrow> int \<Rightarrow> int \<Rightarrow> int \<Rightarrow> int option \<Rightarrow> datetime" where
  \<comment> \<open>\<^verbatim>\<open>datetime(y, mo, d, h, mi, s, tzinfo=...)\<close>, the offset in minutes\<close>
  "mk_datetime y mo d h mi s tz =
     \<lparr>wall = (((days_before_year y + days_before_month y mo + d - 1) * 24 + h) * 60 + mi)
              * US_PER_MINUTE + s * 1000000,
      utcoffset = map_option (\<lambda>m. m * US_PER_MINUTE) tz\<rparr>"

section \<open>config.py\<close>

definition DEDUPE_WINDOW_MINUTES :: int where "DEDUPE_WINDOW_MINUTES = 10"

definition TEXT_SIMILARITY_THRESHOLD :: pyfloat where
  \<comment> \<open>the literal \<^verbatim>\<open>0.9\<close>\<close>
  "TEXT_SIMILARITY_THRESHOLD = fl (9 / 10)"

definition FREQUENCY_WINDOW_MINUTES :: int where "FREQUENCY_WINDOW_MINUTES = 10"
definition FREQUENCY_LIMIT :: int where "FREQUENCY_LIMIT = 5"
definition HISTORY_BUFFER_SIZE :: nat where "HISTORY_BUFFER_SIZE = 30"
definition NOISE_LIMIT_MAX_URGENT :: int where "NOISE_LIMIT_MAX_URGENT = 2"
definition NOISE_LIMIT_WINDOW_MINUTES :: int where "NOISE_LIMIT_WINDOW_MINUTES = 15"
definition QUIET_HOUR_START :: int where "QUIET_HOUR_START = 22"
definition QUIET_HOUR_END :: int where "QUIET_HOUR_END = 6"
definition QUIET_RESUME_HOUR :: int where "QUIET_RESUME_HOUR = 8"
definition BASE_BACKOFF_MINUTES :: int where "BASE_BACKOFF_MINUTES = 5"
definition DEFAULT_WORKING_HOUR :: int where "DEFAULT_WORKING_HOUR = 9"

definition FALLBACK_MAP :: "(string \<times> string) list" where
  "FALLBACK_MAP =
     [(''urgent'', ''NOW''), (''high'', ''NOW''), (''medium'', ''LATER''), (''low'', ''NEVER'')]"

definition FALLBACK_EVENT_TYPE_MAP :: "(string \<times> string) list" where
  "FALLBACK_EVENT_TYPE_MAP =
     [(''alert'', ''NOW''), (''system'', ''NOW''), (''message'', ''LATER''),
      (''reminder'', ''LATER''), (''update'', ''LATER''), (''email'', ''LATER''),
      (''promotion'', ''NEVER'')]"

section \<open>duplicate\_detector.py: similarity\<close>

text \<open>
  The single-row dynamic programme of \<^verbatim>\<open>levenshtein_ratio\<close>, with the row updated in
  place. Every index is in range: the row has \<open>len2 + 1\<close> cells, \<open>1 \<le> j \<le> len2\<close> and
  \<open>1 \<le> i \<le> len1\<close>.
\<close>

definition lev_inner_step ::
  "string \<Rightarrow> string \<Rightarrow> nat \<Rightarrow> nat \<Rightarrow> nat list \<times> nat \<Rightarrow> nat list \<times> nat" where
  "lev_inner_step s1 s2 i j = (\<lambda>(matrix, prev).
     let temp = matrix ! j;
         matrix' = (if s1 ! (i - 1) = s2 ! (j - 1) then matrix[j := prev]
                    else matrix[j := 1 + min prev (min (matrix ! j) (matrix ! (j - 1)))])
     in (matrix', temp))"

definition lev_outer_step :: "string \<Rightarrow> string \<Rightarrow> nat \<Rightarrow> nat list \<Rightarrow> nat list" where
  "lev_outer_step s1 s2 i matrix =
     (let prev = matrix ! 0;
          matrix0 = matrix[0 := i]
      in fst (fold (lev_inner_step s1 s2 i) [1..<length s2 + 1] (matrix0, prev)))"

definition levenshtein_distance :: "string \<Rightarrow> string \<Rightarrow> nat" where
  "levenshtein_distance s1 s2 =
     fold (lev_outer_step s1 s2) [1..<length s1 + 1] [0..<length s2 + 1] ! length s2"

definition levenshtein_ratio :: "string \<Rightarrow> string \<Rightarrow> pyfloat" where
  "levenshtein_ratio s1 s2 =
     (if s1 = s2 then 1
      else if s1 = [] \<or> s2 = [] then 0
      else
        let len1 = int (length s1); len2 = int (length s2)
        in if fsub 1 TEXT_SIMILARITY_THRESHOLD < int_truediv \<bar>len1 - len2\<bar> (max len1 len2)
           then 0
           else
             let distance = int (levenshtein_distance s1 s2);
                 max_len = max len1 len2
             in fsub 1 (int_truediv distance max_len))"

section \<open>The standard library and the outside world\<close>

text \<open>
  Text and parsing functions of the Python standard library are parameters of the model:
  \<^verbatim>\<open>datetime.fromisoformat\<close> (\<open>None\<close> for \<^verbatim>\<open>ValueError\<close>), \<^verbatim>\<open>str.lower\<close>,
  \<^verbatim>\<open>str.strip\<close>, \<^verbatim>\<open>unicodedata.normalize("NFKD", .)\<close>, the two \<^verbatim>\<open>re.sub\<close> calls of
  \<^verbatim>\<open>normalize_text\<close>, and the number of patterns of a keyword list that \<^verbatim>\<open>re.search\<close>
  finds in a text. A character of a \<open>string\<close> stands for one code point.
\<close>

datatype keyword_list = URGENT_KEYWORDS | PROMO_KEYWORDS | LATER_KEYWORDS

record pylib =
  fromisoformat :: "string \<Rightarrow> datetime option"
  str_lower :: "string \<Rightarrow> string"
  str_strip :: "string \<Rightarrow> string"
  nfkd :: "string \<Rightarrow> string"
  re_sub_punct :: "string \<Rightarrow> string"
  re_sub_spaces :: "string \<Rightarrow> string"
  kw_count :: "keyword_list \<Rightarrow> string \<Rightarrow> nat"

text \<open>
  What one call of \<^verbatim>\<open>process_event\<close> reads from outside: the wall clock (UTC, in
  microseconds since 0001-01-01), once at each place that calls
  \<^verbatim>\<open>datetime.now(timezone.utc)\<close>, and the identifier \<^verbatim>\<open>uuid.uuid4()\<close> produces.
\<close>

datatype site = DedupeKeyRead | TextRead | LimitRead nat | FrequencyRead | NoiseRead

record world =
  now :: "site \<Rightarrow> int"
  uuid4 :: string

definition utc_now :: "world \<Rightarrow> site \<Rightarrow> datetime" where
  "utc_now W s = \<lparr>wall = now W s, utcoffset = Some 0\<rparr>"

section \<open>input\_validator.py\<close>

text \<open>
  A raw event is the mapping the caller passes. A field is absent (\<open>None\<close>) or holds a
  string; \<open>metadata\<close> is an opaque mapping.
\<close>

type_synonym metadata = "(string \<times> string) list"

record raw_event =
  r_event_id :: "string option"
  r_user_id :: "string option"
  r_event_type :: "string option"
  r_title :: "string option"
  r_message :: "string option"
  r_source :: "string option"
  r_priority_hint :: "string option"
  r_timestamp :: "string option"
  r_channel :: "string option"
  r_metadata :: "metadata option"
  r_dedupe_key :: "string option"
  r_expires_at :: "string option"

record event =
  event_id :: string
  user_id :: string
  event_type :: string
  title :: string
  message :: string
  source :: string
  priority_hint :: "string option"
  timestamp :: datetime
  parsed_timestamp :: datetime
  channel :: string
  metadata :: metadata
  dedupe_key :: "string option"
  expires_at :: "datetime option"

datatype validation_error =
  MissingField string
| InvalidEventType string
| InvalidChannel string
| InvalidTimestamp string
| InvalidPriorityHint string
| InvalidExpiresAt string

definition VALID_EVENT_TYPES :: "string list" where
  "VALID_EVENT_TYPES =
     [''message'', ''reminder'', ''alert'', ''promotion'', ''system'', ''update'', ''email'']"

definition VALID_CHANNELS :: "string list" where
  "VALID_CHANNELS = [''push'', ''email'', ''sms'', ''in_app'']"

definition VALID_PRIORITY_HINTS :: "string list" where
  "VALID_PRIORITY_HINTS = [''low'', ''medium'', ''high'', ''urgent'']"

definition REQUIRED_FIELDS :: "raw_event \<Rightarrow> (string \<times> string option) list" where
  "REQUIRED_FIELDS e =
     [(''user_id'', r_user_id e), (''event_type'', r_event_type e), (''message'', r_message e),
      (''timestamp'', r_timestamp e), (''channel'', r_channel e)]"

fun first_missing :: "(string \<times> string option) list \<Rightarrow> string option" where
  "first_missing [] = None"
| "first_missing ((field, v) # rest) =
     (if v = None \<or> v = Some [] then Some field else first_missing rest)"

definition replace_Z :: "string \<Rightarrow> string" where
  \<comment> \<open>\<^verbatim>\<open>s.replace("Z", "+00:00")\<close>\<close>
  "replace_Z s = concat (map (\<lambda>c. if c = CHR ''Z'' then ''+00:00'' else [c]) s)"

definition truthy :: "string option \<Rightarrow> bool" where
  "truthy v = (v \<noteq> None \<and> v \<noteq> Some [])"

definition validate_event :: "pylib \<Rightarrow> world \<Rightarrow> raw_event \<Rightarrow> validation_error + event" where
  "validate_event L W e =
     (case first_missing (REQUIRED_FIELDS e) of
        Some field \<Rightarrow> Inl (MissingField field)
      | None \<Rightarrow>
          if the (r_event_type e) \<notin> set VALID_EVENT_TYPES
          then Inl (InvalidEventType (the (r_event_type e)))
          else if the (r_channel e) \<notin> set VALID_CHANNELS
          then Inl (InvalidChannel (the (r_channel e)))
          else
            (case fromisoformat L (replace_Z (the (r_timestamp e))) of
               None \<Rightarrow> Inl (InvalidTimestamp (the (r_timestamp e)))
             | Some ts \<Rightarrow>
                 let normalized =
                   \<lparr>event_id = (case r_event_id e of Some i \<Rightarrow> i | None \<Rightarrow> uuid4 W),
                    user_id = the (r_user_id e),
                    event_type = the (r_event_type e),
                    title = (case r_title e of Some t \<Rightarrow> t | None \<Rightarrow> []),
                    message = the (r_message e),
                    source = (case r_source e of Some s \<Rightarrow> s | None \<Rightarrow> ''unknown''),
                    priority_hint = r_priority_hint e,
                    timestamp = ts,
                    parsed_timestamp = ts,
                    channel = the (r_channel e),
                    metadata = (case r_metadata e of Some m \<Rightarrow> m | None \<Rightarrow> []),
                    dedupe_key = r_dedupe_key e,
                    expires_at = None\<rparr>
                 in if truthy (priority_hint normalized)
                       \<and> the (priority_hint normalized) \<notin> set VALID_PRIORITY_HINTS
                    then Inl (InvalidPriorityHint (the (priority_hint normalized)))
                    else if truthy (r_expires_at e)
                    then (case fromisoformat L (replace_Z (the (r_expires_at e))) of
                            None \<Rightarrow> Inl (InvalidExpiresAt (the (r_expires_at e)))
                          | Some expiry \<Rightarrow> Inr (normalized\<lparr>expires_at := Some expiry\<rparr>))
                    else Inr normalized))"

text \<open>The validated event as the dictionary \<^verbatim>\<open>validate_event\<close> builds, in its key order.\<close>

datatype pyval =
  VStr string
| VNone
| VIso datetime
| VDatetime datetime
| VMeta metadata

definition opt_str :: "string option \<Rightarrow> pyval" where
  "opt_str v = (case v of None \<Rightarrow> VNone | Some s \<Rightarrow> VStr s)"

definition event_items :: "event \<Rightarrow> (string \<times> pyval) list" where
  "event_items ev =
     [(''event_id'', VStr (event_id ev)),
      (''user_id'', VStr (user_id ev)),
      (''event_type'', VStr (event_type ev)),
      (''title'', VStr (title ev)),
      (''message'', VStr (message ev)),
      (''source'', VStr (source ev)),
      (''priority_hint'', opt_str (priority_hint ev)),
      (''timestamp'', VIso (timestamp ev)),
      (''parsed_timestamp'', VDatetime (parsed_timestamp ev)),
      (''channel'', VStr (channel ev)),
      (''metadata'', VMeta (metadata ev)),
      (''dedupe_key'', opt_str (dedupe_key ev)),
      (''expires_at'', (case expires_at ev of None \<Rightarrow> VNone | Some d \<Rightarrow> VDatetime d))]"

section \<open>history\_store.py\<close>

record history_record =
  h_event_id :: string
  h_event_type :: string
  h_source :: string
  h_decision :: string
  h_explanation_code :: string
  h_dedupe_key :: "string option"
  h_normalized_text :: string
  h_parsed_timestamp :: datetime
  h_timestamp :: datetime

text \<open>The \<^verbatim>\<open>defaultdict\<close> of deques: a user without an entry has the empty history.\<close>

type_synonym history_store = "string \<Rightarrow> history_record list"

definition deque_append :: "nat \<Rightarrow> 'a list \<Rightarrow> 'a \<Rightarrow> 'a list" where
  \<comment> \<open>\<^verbatim>\<open>deque(maxlen=n).append(x)\<close>: the oldest entry leaves a full deque\<close>
  "deque_append n xs x = (let ys = xs @ [x] in drop (length ys - n) ys)"

definition add :: "history_store \<Rightarrow> string \<Rightarrow> history_record \<Rightarrow> history_store" where
  "add store uid record = store(uid := deque_append HISTORY_BUFFER_SIZE (store uid) record)"

fun filter_recent :: "datetime \<Rightarrow> history_record list \<Rightarrow> pyerror + history_record list" where
  "filter_recent cutoff [] = Inr []"
| "filter_recent cutoff (r # rs) =
     bindE (dt_ge (h_parsed_timestamp r) cutoff) (\<lambda>keep.
     bindE (filter_recent cutoff rs) (\<lambda>rest.
     Inr (if keep then r # rest else rest)))"

definition get_recent ::
  "datetime \<Rightarrow> history_store \<Rightarrow> string \<Rightarrow> int \<Rightarrow> pyerror + history_record list" where
  "get_recent now_utc store uid window_minutes =
     bindE (dt_add now_utc (- (window_minutes * US_PER_MINUTE))) (\<lambda>cutoff.
     filter_recent cutoff (store uid))"

definition count_in_window :: "datetime \<Rightarrow> history_store \<Rightarrow> string \<Rightarrow> int \<Rightarrow> pyerror + int" where
  "count_in_window now_utc store uid window_minutes =
     bindE (get_recent now_utc store uid window_minutes) (\<lambda>recent. Inr (int (length recent)))"

definition count_urgent_by_source_or_type ::
  "datetime \<Rightarrow> history_store \<Rightarrow> string \<Rightarrow> string \<Rightarrow> string \<Rightarrow> int \<Rightarrow> pyerror + int" where
  "count_urgent_by_source_or_type now_utc store uid etype src window_minutes =
     bindE (get_recent now_utc store uid window_minutes) (\<lambda>recent.
     Inr (int (length (filter
       (\<lambda>r. h_decision r = ''NOW'' \<and> (h_event_type r = etype \<or> h_source r = src)) recent))))"

definition get_dedupe_key_entries ::
  "datetime \<Rightarrow> history_store \<Rightarrow> string \<Rightarrow> string \<Rightarrow> int \<Rightarrow> pyerror + history_record list" where
  "get_dedupe_key_entries now_utc store uid key window_minutes =
     bindE (get_recent now_utc store uid window_minutes) (\<lambda>recent.
     Inr (filter (\<lambda>r. h_dedupe_key r = Some key) recent))"

definition get_text_entries ::
  "datetime \<Rightarrow> history_store \<Rightarrow> string \<Rightarrow> int \<Rightarrow> pyerror + history_record list" where
  "get_text_entries now_utc store uid window_minutes =
     bindE (get_recent now_utc store uid window_minutes) (\<lambda>recent.
     Inr (filter (\<lambda>r. h_normalized_text r \<noteq> []) recent))"

definition count_event_type_today :: "datetime \<Rightarrow> history_store \<Rightarrow> string \<Rightarrow> string \<Rightarrow> int" where
  "count_event_type_today now_utc store uid etype =
     (let today = date_of now_utc
      in int (length (filter
           (\<lambda>r. h_event_type r = etype \<and> date_of (h_parsed_timestamp r) = today) (store uid))))"

section \<open>duplicate\_detector.py: the detector\<close>

definition normalize_text :: "pylib \<Rightarrow> string \<Rightarrow> string" where
  "normalize_text L text =
     str_strip L (re_sub_spaces L (re_sub_punct L (nfkd L (str_lower L text))))"

definition event_text_of :: "pylib \<Rightarrow> event \<Rightarrow> string" where
  \<comment> \<open>\<^verbatim>\<open>normalize_text((title + " " + message).strip())\<close>\<close>
  "event_text_of L ev = normalize_text L (str_strip L (title ev @ '' '' @ message ev))"

text \<open>
  The result dictionary of \<^verbatim>\<open>check\<close>: not a duplicate, or a duplicate with its
  \<^verbatim>\<open>duplicate_type\<close> and \<^verbatim>\<open>matched_event_id\<close>.
\<close>

datatype dup_result = NotDuplicate | Duplicate string string

definition check :: "pylib \<Rightarrow> world \<Rightarrow> history_store \<Rightarrow> event \<Rightarrow> pyerror + dup_result" where
  "check L W store ev =
     bindE
       (if truthy (dedupe_key ev)
        then get_dedupe_key_entries (utc_now W DedupeKeyRead) store (user_id ev)
               (the (dedupe_key ev)) DEDUPE_WINDOW_MINUTES
        else Inr [])
       (\<lambda>matches.
          if matches \<noteq> []
          then Inr (Duplicate ''DUPLICATE_DEDUPE_KEY'' (h_event_id (last matches)))
          else
            let event_text = event_text_of L ev
            in bindE
                 (if event_text \<noteq> []
                  then get_text_entries (utc_now W TextRead) store (user_id ev)
                         DEDUPE_WINDOW_MINUTES
                  else Inr [])
                 (\<lambda>past_entries.
                    case find (\<lambda>entry. TEXT_SIMILARITY_THRESHOLD
                                  \<le> levenshtein_ratio event_text (h_normalized_text entry))
                           past_entries of
                      Some entry \<Rightarrow> Inr (Duplicate ''DUPLICATE_TEXT_SIMILAR'' (h_event_id entry))
                    | None \<Rightarrow> Inr NotDuplicate))"

section \<open>Reasons\<close>

text \<open>
  The \<^verbatim>\<open>reason\<close> and \<^verbatim>\<open>raw_output\<close> strings are f-strings; the model keeps which
  template produced the string and the values it interpolates.
\<close>

datatype llm_reason =
  UrgentReason string nat string "string option"
| PromoReason nat
| LaterReason nat
| DefaultReason string

datatype model_output =
  NoOutput
| LLMOutput string llm_reason pyfloat
| FallbackOutput string string

datatype reason =
  NoReason
| InvalidEvent validation_error
| DuplicateSuppressed string string
| ModelReason model_output
| RuleApplied string string
| RuleDowngraded string string string string
| RuleDailyLimit string string int int
| FrequencyDowngraded string int
| FrequencySuppressed string int
| NoiseLimited int string string
| ExpiredReason

section \<open>rule\_engine.py\<close>

text \<open>
  A rule as the JSON document gives it: a key is absent (\<open>None\<close>) or holds a value of the
  type the engine reads it at. \<^verbatim>\<open>force_decision\<close> and the values of \<^verbatim>\<open>downgrade\<close> are
  whatever strings the document holds; the loader does not inspect them.
\<close>

record time_window =
  start_hour :: "int option"
  end_hour :: "int option"

record match_cond =
  m_event_type :: "string list option"
  m_priority_hint :: "string option list option"
  m_channel :: "string list option"
  m_source :: "string list option"
  m_time_window :: "time_window option"

record action =
  force_decision :: "string option"
  downgrade :: "(string \<times> string) list option"
  limit_per_day :: "int option"

record rule =
  rule_id :: "string option"
  priority :: "int option"
  description :: "string option"
  rule_match :: "match_cond option"
  rule_action :: "action option"

definition priority_key :: "rule \<Rightarrow> int" where
  \<comment> \<open>\<^verbatim>\<open>r.get("priority", 0)\<close>\<close>
  "priority_key r = (case priority r of Some p \<Rightarrow> p | None \<Rightarrow> 0)"

definition load_rules :: "rule list \<Rightarrow> rule list" where
  \<comment> \<open>\<^verbatim>\<open>sorted(rules, key=priority, reverse=True)\<close>: descending and stable\<close>
  "load_rules rs = sort_key (\<lambda>r. - priority_key r) rs"

definition matches_rule :: "event \<Rightarrow> rule \<Rightarrow> bool" where
  "matches_rule ev r =
     (case rule_match r of
        None \<Rightarrow> True
      | Some match_cond \<Rightarrow>
          (case m_event_type match_cond of
             None \<Rightarrow> True | Some allowed \<Rightarrow> event_type ev \<in> set allowed)
          \<and> (case m_priority_hint match_cond of
                None \<Rightarrow> True | Some allowed \<Rightarrow> priority_hint ev \<in> set allowed)
          \<and> (case m_channel match_cond of
                None \<Rightarrow> True | Some allowed \<Rightarrow> channel ev \<in> set allowed)
          \<and> (case m_source match_cond of
                None \<Rightarrow> True | Some allowed \<Rightarrow> source ev \<in> set allowed)
          \<and> (case m_time_window match_cond of
                None \<Rightarrow> True
              | Some tw \<Rightarrow>
                  let h = hour (parsed_timestamp ev);
                      start = (case start_hour tw of Some v \<Rightarrow> v | None \<Rightarrow> 0);
                      end = (case end_hour tw of Some v \<Rightarrow> v | None \<Rightarrow> 24)
                  in if end < start then start \<le> h \<or> h < end
                     else start \<le> h \<and> h < end))"

record matched_rule =
  mr_rule_id :: string
  mr_rule :: rule
  mr_action :: action

definition match_rules :: "rule list \<Rightarrow> event \<Rightarrow> matched_rule list" where
  "match_rules rs ev =
     map (\<lambda>r. \<lparr>mr_rule_id = (case rule_id r of Some i \<Rightarrow> i | None \<Rightarrow> ''unknown''),
               mr_rule = r,
               mr_action = (case rule_action r of
                              Some a \<Rightarrow> a
                            | None \<Rightarrow> \<lparr>force_decision = None, downgrade = None,
                                        limit_per_day = None\<rparr>)\<rparr>)
         (filter (matches_rule ev) rs)"

record rule_result =
  rr_decision :: string
  rr_explanation_code :: "string option"
  rr_matched_rule_id :: "string option"
  rr_reason :: reason

text \<open>
  One pass of the loop body of \<^verbatim>\<open>apply_actions\<close>: \<open>Inl\<close> is \<^verbatim>\<open>return result\<close>, \<open>Inr\<close>
  carries \<^verbatim>\<open>result\<close> and \<^verbatim>\<open>current_decision\<close> into the next pass. \<open>k\<close> counts the
  matched rules already visited; it names the clock reading of
  \<^verbatim>\<open>count_event_type_today\<close> for this rule.
\<close>

definition apply_downgrade ::
  "matched_rule \<Rightarrow> string \<Rightarrow> rule_result \<Rightarrow> rule_result \<times> string" where
  "apply_downgrade m current_decision result =
     (case downgrade (mr_action m) of
        None \<Rightarrow> (result, current_decision)
      | Some dg \<Rightarrow>
          (case map_of dg current_decision of
             None \<Rightarrow> (result, current_decision)
           | Some target \<Rightarrow>
               (\<lparr>rr_decision = target,
                 rr_explanation_code = Some ''RULE_OVERRIDE'',
                 rr_matched_rule_id = Some (mr_rule_id m),
                 rr_reason = RuleDowngraded (mr_rule_id m)
                   (case description (mr_rule m) of Some d \<Rightarrow> d | None \<Rightarrow> [])
                   current_decision target\<rparr>,
                target)))"

definition apply_rule ::
  "world \<Rightarrow> history_store \<Rightarrow> event \<Rightarrow> nat \<Rightarrow> matched_rule \<Rightarrow> string \<Rightarrow> rule_result
     \<Rightarrow> rule_result + rule_result \<times> string" where
  "apply_rule W store ev k m current_decision result =
     (let act = mr_action m;
          rid = mr_rule_id m;
          rule_desc = (case description (mr_rule m) of Some d \<Rightarrow> d | None \<Rightarrow> [])
      in (case force_decision act of
            Some forced \<Rightarrow>
              Inl \<lparr>rr_decision = forced, rr_explanation_code = Some ''RULE_OVERRIDE'',
                   rr_matched_rule_id = Some rid, rr_reason = RuleApplied rid rule_desc\<rparr>
          | None \<Rightarrow>
              (let downgraded = apply_downgrade m current_decision result
               in (case limit_per_day act of
                     None \<Rightarrow> Inr downgraded
                   | Some limit \<Rightarrow>
                       (let count = count_event_type_today (utc_now W (LimitRead k)) store
                                      (user_id ev) (event_type ev)
                        in if limit \<le> count
                           then Inl \<lparr>rr_decision = ''NEVER'',
                                     rr_explanation_code = Some ''RULE_OVERRIDE'',
                                     rr_matched_rule_id = Some rid,
                                     rr_reason = RuleDailyLimit rid rule_desc limit count\<rparr>
                           else Inr downgraded)))))"

fun apply_loop ::
  "world \<Rightarrow> history_store \<Rightarrow> event \<Rightarrow> nat \<Rightarrow> matched_rule list \<Rightarrow> string \<Rightarrow> rule_result
     \<Rightarrow> rule_result" where
  "apply_loop W store ev k [] current_decision result = result"
| "apply_loop W store ev k (m # ms) current_decision result =
     (case apply_rule W store ev k m current_decision result of
        Inl final \<Rightarrow> final
      | Inr (result1, current1) \<Rightarrow> apply_loop W store ev (Suc k) ms current1 result1)"

definition apply_actions ::
  "world \<Rightarrow> history_store \<Rightarrow> event \<Rightarrow> matched_rule list \<Rightarrow> string \<Rightarrow> rule_result" where
  "apply_actions W store ev matched_rules current_decision =
     apply_loop W store ev 0 matched_rules current_decision
       \<lparr>rr_decision = current_decision, rr_explanation_code = None,
        rr_matched_rule_id = None, rr_reason = NoReason\<rparr>"

section \<open>llm\_classifier.py\<close>

record llm_result =
  label :: string
  confidence :: pyfloat
  raw_output :: model_output
  used_fallback :: bool
  llm_explanation_code :: string

record llm_classifier =
  simulate_failure :: bool
  call_count :: nat

definition dict_get :: "(string \<times> 'a) list \<Rightarrow> string \<Rightarrow> 'a \<Rightarrow> 'a" where
  "dict_get d k dflt = (case map_of d k of Some v \<Rightarrow> v | None \<Rightarrow> dflt)"

definition boosted_scores :: "pylib \<Rightarrow> event \<Rightarrow> nat \<times> nat \<times> nat" where
  \<comment> \<open>the keyword scores of \<^verbatim>\<open>_llm_classify\<close> after the boosts: urgent, promo, later\<close>
  "boosted_scores L ev =
     (let text = str_lower L (title ev @ '' '' @ message ev);
          etype = event_type ev;
          prio = priority_hint ev;
          urgent0 = kw_count L URGENT_KEYWORDS text;
          promo0 = kw_count L PROMO_KEYWORDS text;
          later0 = kw_count L LATER_KEYWORDS text;
          urgent1 = (if prio = Some ''urgent'' then urgent0 + 3
                     else if prio = Some ''high'' then urgent0 + 2 else urgent0);
          promo1 = (if prio \<noteq> Some ''urgent'' \<and> prio \<noteq> Some ''high'' \<and> prio = Some ''low''
                    then promo0 + 2 else promo0);
          urgent2 = (if etype = ''alert'' \<or> etype = ''system'' then urgent1 + 2 else urgent1);
          promo2 = (if etype \<noteq> ''alert'' \<and> etype \<noteq> ''system'' \<and> etype = ''promotion''
                    then promo1 + 3 else promo1);
          later2 = (if etype \<noteq> ''alert'' \<and> etype \<noteq> ''system'' \<and> etype \<noteq> ''promotion''
                       \<and> etype = ''reminder''
                    then later0 + 2 else later0);
          urgent3 = (if channel ev = ''sms'' then urgent2 + 1 else urgent2)
      in (urgent3, promo2, later2))"

definition llm_classify :: "pylib \<Rightarrow> event \<Rightarrow> llm_result" where
  "llm_classify L ev =
     (case boosted_scores L ev of (urgent_score, promo_score, later_score) \<Rightarrow>
      let text = str_lower L (title ev @ '' '' @ message ev);
          etype = event_type ev;
          prio = priority_hint ev;
          total = max (urgent_score + promo_score + later_score) 1
      in if promo_score < urgent_score \<and> later_score < urgent_score
         then
           let conf = min (fadd (1 / 2) (fmul (int_truediv (int urgent_score) (int total)) (1 / 2)))
                          (fl (99 / 100));
               reason_text = UrgentReason text urgent_score etype prio
           in \<lparr>label = ''NOW'', confidence = py_round2 conf,
               raw_output = LLMOutput ''NOW'' reason_text conf, used_fallback = False,
               llm_explanation_code =
                 (if 2 \<le> urgent_score then ''URGENT_KEYWORD'' else ''LLM_DECISION'')\<rparr>
         else if urgent_score < promo_score \<and> later_score < promo_score
         then
           let conf = min (fadd (1 / 2) (fmul (int_truediv (int promo_score) (int total)) (1 / 2)))
                          (fl (99 / 100))
           in \<lparr>label = ''NEVER'', confidence = py_round2 conf,
               raw_output = LLMOutput ''NEVER'' (PromoReason promo_score) conf,
               used_fallback = False, llm_explanation_code = ''LLM_DECISION''\<rparr>
         else if 0 < later_score
         then
           let conf = min (fadd (1 / 2)
                             (fmul (int_truediv (int later_score) (int total)) (fl (4 / 10))))
                          (fl (95 / 100))
           in \<lparr>label = ''LATER'', confidence = py_round2 conf,
               raw_output = LLMOutput ''LATER'' (LaterReason later_score) conf,
               used_fallback = False, llm_explanation_code = ''LLM_DECISION''\<rparr>
         else
           let lbl = dict_get FALLBACK_EVENT_TYPE_MAP etype ''LATER''
           in \<lparr>label = lbl, confidence = py_round2 (1 / 2),
               raw_output = LLMOutput lbl (DefaultReason etype) (1 / 2),
               used_fallback = False, llm_explanation_code = ''LLM_DECISION''\<rparr>)"

definition fallback :: "event \<Rightarrow> string \<Rightarrow> llm_result" where
  "fallback ev why =
     (let lbl = (case priority_hint ev of
                   None \<Rightarrow> dict_get FALLBACK_EVENT_TYPE_MAP (event_type ev) ''LATER''
                 | Some p \<Rightarrow>
                     (case map_of FALLBACK_MAP p of
                        Some l \<Rightarrow> l
                      | None \<Rightarrow> dict_get FALLBACK_EVENT_TYPE_MAP (event_type ev) ''LATER''))
      in \<lparr>label = lbl, confidence = fl (4 / 10), raw_output = FallbackOutput why lbl,
          used_fallback = True, llm_explanation_code = ''FALLBACK''\<rparr>)"

definition classify :: "pylib \<Rightarrow> llm_classifier \<Rightarrow> event \<Rightarrow> llm_result \<times> llm_classifier" where
  "classify L c ev =
     (let c' = c\<lparr>call_count := call_count c + 1\<rparr>
      in if simulate_failure c
         then (fallback ev ''LLM service simulated failure'', c')
         else (llm_classify L ev, c'))"

section \<open>scheduler.py\<close>

text \<open>\<^verbatim>\<open>compute_scheduled_time\<close> returns the sentinel or the rendering of a datetime.\<close>

datatype scheduled = EXPIRED | At datetime

definition is_quiet_hour :: "int \<Rightarrow> bool" where
  "is_quiet_hour h =
     (if QUIET_HOUR_END < QUIET_HOUR_START
      then QUIET_HOUR_START \<le> h \<or> h < QUIET_HOUR_END
      else QUIET_HOUR_START \<le> h \<and> h < QUIET_HOUR_END)"

definition next_morning :: "datetime \<Rightarrow> pyerror + datetime" where
  "next_morning ts =
     bindE (dt_add ts US_PER_DAY) (\<lambda>next_day. Inr (replace_hour next_day QUIET_RESUME_HOUR))"

definition next_working_hour :: "datetime \<Rightarrow> pyerror + datetime" where
  "next_working_hour ts =
     (if hour ts < DEFAULT_WORKING_HOUR
      then Inr (replace_hour ts DEFAULT_WORKING_HOUR)
      else bindE (dt_add ts US_PER_DAY)
             (\<lambda>next_day. Inr (replace_hour next_day DEFAULT_WORKING_HOUR)))"

definition compute_scheduled_time :: "event \<Rightarrow> string \<Rightarrow> int \<Rightarrow> pyerror + scheduled" where
  "compute_scheduled_time ev explanation_code frequency_count =
     (let ts = parsed_timestamp ev
      in bindE
           (if explanation_code = ''RULE_OVERRIDE''
            then (if is_quiet_hour (hour ts) then next_morning ts
                  else dt_add ts (15 * US_PER_MINUTE))
            else if explanation_code = ''FREQUENCY_LIMIT''
            then (let backoff = BASE_BACKOFF_MINUTES * max 1 (frequency_count - 3)
                  in dt_add ts (backoff * US_PER_MINUTE))
            else if event_type ev = ''reminder''
            then next_working_hour ts
            else dt_add ts (15 * US_PER_MINUTE))
           (\<lambda>sched.
              case expires_at ev of
                None \<Rightarrow> Inr (At sched)
              | Some expiry \<Rightarrow>
                  bindE (dt_gt sched expiry)
                    (\<lambda>late. Inr (if late then EXPIRED else At sched))))"

section \<open>logger.py\<close>

record log_entry =
  l_user_id :: string
  l_event_id :: string
  l_event_type :: string
  l_decision :: string
  l_scheduled_time :: "datetime option"
  l_timestamp :: datetime
  l_explanation_code :: string
  l_reason :: reason
  l_matched_rule_id :: "string option"
  l_confidence :: pyfloat
  l_raw_model_output :: model_output

definition logger_log ::
  "log_entry list \<Rightarrow> event \<Rightarrow> string \<Rightarrow> datetime option \<Rightarrow> string \<Rightarrow> reason
     \<Rightarrow> string option \<Rightarrow> pyfloat \<Rightarrow> model_output \<Rightarrow> log_entry \<times> log_entry list" where
  "logger_log logs ev decision scheduled_time explanation_code why matched_rule_id conf raw_model_output =
     (let entry =
        \<lparr>l_user_id = user_id ev,
         l_event_id = event_id ev,
         l_event_type = event_type ev,
         l_decision = decision,
         l_scheduled_time = scheduled_time,
         l_timestamp = timestamp ev,
         l_explanation_code = explanation_code,
         l_reason = why,
         l_matched_rule_id = matched_rule_id,
         l_confidence = py_round2 conf,
         l_raw_model_output = raw_model_output\<rparr>
      in (entry, logs @ [entry]))"

text \<open>
  The \<^verbatim>\<open>input_event\<close> of an output record: the raw mapping on a validation error, the
  filtered dictionary of the validated event otherwise.
\<close>

datatype input_view = RawInput raw_event | CleanInput "(string \<times> pyval) list"

record output_record =
  o_input_event :: input_view
  o_decision :: string
  o_scheduled_time :: "datetime option"
  o_explanation_code :: string
  o_reason :: reason
  o_matched_rule_id :: "string option"

definition get_output_record :: "event \<Rightarrow> log_entry \<Rightarrow> output_record" where
  "get_output_record ev entry =
     (let clean_input =
        filter (\<lambda>(k, v). k \<notin> {''parsed_timestamp'', ''event_id''}) (event_items ev)
      in \<lparr>o_input_event = CleanInput clean_input,
          o_decision = l_decision entry,
          o_scheduled_time = l_scheduled_time entry,
          o_explanation_code = l_explanation_code entry,
          o_reason = l_reason entry,
          o_matched_rule_id = l_matched_rule_id entry\<rparr>)"

section \<open>decision\_engine.py\<close>

record engine =
  history :: history_store
  rules :: "rule list"
  llm :: llm_classifier
  logs :: "log_entry list"

definition DecisionEngine :: "rule list \<Rightarrow> bool \<Rightarrow> engine" where
  \<comment> \<open>\<^verbatim>\<open>DecisionEngine(rules_data=..., simulate_llm_failure=...)\<close>\<close>
  "DecisionEngine rules_data simulate_llm_failure =
     \<lparr>history = (\<lambda>uid. []),
      rules = load_rules rules_data,
      llm = \<lparr>simulate_failure = simulate_llm_failure, call_count = 0\<rparr>,
      logs = []\<rparr>"

definition record_history ::
  "pylib \<Rightarrow> history_store \<Rightarrow> event \<Rightarrow> string \<Rightarrow> string \<Rightarrow> history_store" where
  "record_history L store ev decision explanation_code =
     add store (user_id ev)
       \<lparr>h_event_id = event_id ev,
        h_event_type = event_type ev,
        h_source = source ev,
        h_decision = decision,
        h_explanation_code = explanation_code,
        h_dedupe_key = dedupe_key ev,
        h_normalized_text = event_text_of L ev,
        h_parsed_timestamp = parsed_timestamp ev,
        h_timestamp = timestamp ev\<rparr>"

text \<open>The local variables of \<^verbatim>\<open>process_event\<close> that steps 4 to 7 rewrite.\<close>

record verdict =
  current_decision :: string
  explanation_code :: string
  why :: reason
  matched_rule_id :: "string option"

definition step4_rules :: "world \<Rightarrow> engine \<Rightarrow> event \<Rightarrow> verdict \<Rightarrow> verdict" where
  "step4_rules W st ev v =
     (let matched_rules = match_rules (rules st) ev
      in if matched_rules \<noteq> []
         then
           (let rule_result = apply_actions W (history st) ev matched_rules (current_decision v)
            in if truthy (rr_explanation_code rule_result)
               then \<lparr>current_decision = rr_decision rule_result,
                     explanation_code = the (rr_explanation_code rule_result),
                     why = rr_reason rule_result,
                     matched_rule_id = rr_matched_rule_id rule_result\<rparr>
               else v)
         else v)"

definition step5_frequency :: "event \<Rightarrow> int \<Rightarrow> verdict \<Rightarrow> verdict" where
  "step5_frequency ev freq_count v =
     (if FREQUENCY_LIMIT \<le> freq_count
      then (if current_decision v = ''NOW''
            then v\<lparr>current_decision := ''LATER'',
                   explanation_code := ''FREQUENCY_LIMIT'',
                   why := FrequencyDowngraded (user_id ev) freq_count\<rparr>
            else if current_decision v = ''LATER'' \<and> FREQUENCY_LIMIT + 2 \<le> freq_count
            then v\<lparr>current_decision := ''NEVER'',
                   explanation_code := ''FREQUENCY_SUPPRESSION'',
                   why := FrequencySuppressed (user_id ev) freq_count\<rparr>
            else v)
      else v)"

definition step6_noise :: "world \<Rightarrow> engine \<Rightarrow> event \<Rightarrow> verdict \<Rightarrow> pyerror + verdict" where
  "step6_noise W st ev v =
     (if current_decision v = ''NOW''
      then bindE
             (count_urgent_by_source_or_type (utc_now W NoiseRead) (history st) (user_id ev)
                (event_type ev) (source ev) NOISE_LIMIT_WINDOW_MINUTES)
             (\<lambda>urgent_count.
                Inr (if NOISE_LIMIT_MAX_URGENT \<le> urgent_count
                     then v\<lparr>current_decision := ''LATER'',
                            explanation_code := ''CONFLICT_NOISE_LIMIT'',
                            why := NoiseLimited urgent_count (event_type ev) (source ev)\<rparr>
                     else v))
      else Inr v)"

definition step7_schedule ::
  "event \<Rightarrow> int \<Rightarrow> verdict \<Rightarrow> pyerror + verdict \<times> datetime option" where
  "step7_schedule ev freq_count v =
     (if current_decision v = ''LATER''
      then bindE (compute_scheduled_time ev (explanation_code v) freq_count)
             (\<lambda>sched.
                case sched of
                  EXPIRED \<Rightarrow>
                    Inr (v\<lparr>current_decision := ''NEVER'', explanation_code := ''EXPIRED'',
                           why := ExpiredReason\<rparr>, None)
                | At t \<Rightarrow> Inr (v, Some t))
      else Inr (v, None))"

definition decide ::
  "world \<Rightarrow> engine \<Rightarrow> event \<Rightarrow> llm_result \<Rightarrow> pyerror + verdict \<times> datetime option" where
  \<comment> \<open>steps 4 to 7, from the classifier's result\<close>
  "decide W st ev llm_result =
     (let v3 = \<lparr>current_decision = label llm_result,
                explanation_code = llm_explanation_code llm_result,
                why = ModelReason (raw_output llm_result),
                matched_rule_id = None\<rparr>;
          v4 = step4_rules W st ev v3
      in bindE (count_in_window (utc_now W FrequencyRead) (history st) (user_id ev)
                  FREQUENCY_WINDOW_MINUTES)
           (\<lambda>freq_count.
              bindE (step6_noise W st ev (step5_frequency ev freq_count v4))
                (\<lambda>v6. step7_schedule ev freq_count v6)))"

text \<open>
  \<^verbatim>\<open>process_event\<close> returns the output record or lets an exception escape (\<open>Inl\<close>);
  either way the engine is left in the second component.
\<close>

definition process_event ::
  "pylib \<Rightarrow> world \<Rightarrow> engine \<Rightarrow> raw_event \<Rightarrow> (pyerror + output_record) \<times> engine" where
  "process_event L W st raw =
     (case validate_event L W raw of
        Inl e \<Rightarrow>
          (Inr \<lparr>o_input_event = RawInput raw,
                o_decision = ''NEVER'',
                o_scheduled_time = None,
                o_explanation_code = ''VALIDATION_ERROR'',
                o_reason = InvalidEvent e,
                o_matched_rule_id = None\<rparr>, st)
      | Inr ev \<Rightarrow>
          (case check L W (history st) ev of
             Inl err \<Rightarrow> (Inl err, st)
           | Inr (Duplicate dup_type matched_id) \<Rightarrow>
               (let logged = logger_log (logs st) ev ''NEVER'' None dup_type
                               (DuplicateSuppressed dup_type
                                  (if matched_id \<noteq> [] then take 8 matched_id else ''unknown''))
                               None 0 NoOutput
                in (Inr (get_output_record ev (fst logged)),
                    st\<lparr>logs := snd logged,
                       history := record_history L (history st) ev ''NEVER'' dup_type\<rparr>))
           | Inr NotDuplicate \<Rightarrow>
               (let classified = classify L (llm st) ev;
                    llm_result = fst classified;
                    st1 = st\<lparr>llm := snd classified\<rparr>
                in (case decide W st1 ev llm_result of
                      Inl err \<Rightarrow> (Inl err, st1)
                    | Inr (v, scheduled_time) \<Rightarrow>
                        (let logged = logger_log (logs st1) ev (current_decision v) scheduled_time
                                        (explanation_code v) (why v) (matched_rule_id v)
                                        (confidence llm_result) (raw_output llm_result)
                         in (Inr (get_output_record ev (fst logged)),
                             st1\<lparr>logs := snd logged,
                                 history := record_history L (history st1) ev
                                              (current_decision v) (explanation_code v)\<rparr>))))))"

section \<open>A concrete library and concrete inputs\<close>

text \<open>
  An instance of the library parameters for evaluating the pipeline on concrete events.
  It agrees with CPython on the inputs used below: texts of lower- and upper-case ASCII
  letters, digits, spaces and ASCII punctuation that contain none of the classifier's
  keywords, and the timestamp strings listed in \<open>demo_fromisoformat\<close>.
\<close>

definition ord :: "char \<Rightarrow> nat" where
  "ord c = of_char c"

definition ascii_lower :: "string \<Rightarrow> string" where
  "ascii_lower s =
     map (\<lambda>c. if 65 \<le> ord c \<and> ord c \<le> 90 then char_of (ord c + 32) else c) s"

definition ascii_space :: "char \<Rightarrow> bool" where
  "ascii_space c = (ord c = 32 \<or> (9 \<le> ord c \<and> ord c \<le> 13))"

definition ascii_word :: "char \<Rightarrow> bool" where
  "ascii_word c =
     ((97 \<le> ord c \<and> ord c \<le> 122) \<or> (65 \<le> ord c \<and> ord c \<le> 90)
      \<or> (48 \<le> ord c \<and> ord c \<le> 57) \<or> ord c = 95)"

definition ascii_strip :: "string \<Rightarrow> string" where
  "ascii_strip s = rev (dropWhile ascii_space (rev (dropWhile ascii_space s)))"

fun collapse_from :: "bool \<Rightarrow> string \<Rightarrow> string" where
  \<comment> \<open>the flag says that the previous character was whitespace\<close>
  "collapse_from in_run [] = []"
| "collapse_from in_run (c # cs) =
     (if ascii_space c
      then (if in_run then collapse_from True cs else CHR '' '' # collapse_from True cs)
      else c # collapse_from False cs)"

definition collapse_spaces :: "string \<Rightarrow> string" where
  "collapse_spaces s = collapse_from False s"

definition demo_fromisoformat :: "string \<Rightarrow> datetime option" where
  "demo_fromisoformat s =
     map_of
       [(''2026-02-27T09:00:00+00:00'', mk_datetime 2026 2 27 9 0 0 (Some 0)),
        (''2026-02-27T23:30:00+00:00'', mk_datetime 2026 2 27 23 30 0 (Some 0)),
        (''2026-02-27T09:00:00'', mk_datetime 2026 2 27 9 0 0 None)] s"

definition demo_lib :: pylib where
  "demo_lib =
     \<lparr>fromisoformat = demo_fromisoformat,
      str_lower = ascii_lower,
      str_strip = ascii_strip,
      nfkd = (\<lambda>s. s),
      re_sub_punct = filter (\<lambda>c. ascii_word c \<or> ascii_space c),
      re_sub_spaces = collapse_spaces,
      kw_count = (\<lambda>kws text. 0)\<rparr>"

definition demo_world :: "datetime \<Rightarrow> world" where
  \<comment> \<open>every clock reading of the call is the instant \<open>t\<close> (UTC)\<close>
  "demo_world t =
     \<lparr>now = (\<lambda>s. wall t), uuid4 = ''3f2b8c1e-5d4a-4e6f-9a7b-0c1d2e3f4a5b''\<rparr>"

definition demo_raw :: "string \<Rightarrow> raw_event" where
  \<comment> \<open>\<^verbatim>\<open>{"user_id": "u1", "event_type": "message", "message": "hello world",
      "timestamp": ts, "channel": "push"}\<close>\<close>
  "demo_raw ts =
     \<lparr>r_event_id = None, r_user_id = Some ''u1'', r_event_type = Some ''message'',
      r_title = None, r_message = Some ''hello world'', r_source = None,
      r_priority_hint = None, r_timestamp = Some ts, r_channel = Some ''push'',
      r_metadata = None, r_dedupe_key = None, r_expires_at = None\<rparr>"

definition demo_event :: "datetime \<Rightarrow> event" where
  \<comment> \<open>what \<open>validate_event\<close> makes of \<open>demo_raw\<close> when the timestamp parses to \<open>ts\<close>\<close>
  "demo_event ts =
     \<lparr>event_id = ''3f2b8c1e-5d4a-4e6f-9a7b-0c1d2e3f4a5b'', user_id = ''u1'',
      event_type = ''message'', title = [], message = ''hello world'',
      source = ''unknown'', priority_hint = None, timestamp = ts, parsed_timestamp = ts,
      channel = ''push'', metadata = [], dedupe_key = None, expires_at = None\<rparr>"

definition demo_force_rule :: rule where
  \<comment> \<open>\<^verbatim>\<open>{"id": "R1", "priority": 10, "description": "hold for review",
      "action": {"force_decision": "MAYBE"}}\<close>\<close>
  "demo_force_rule =
     \<lparr>rule_id = Some ''R1'', priority = Some 10, description = Some ''hold for review'',
      rule_match = None,
      rule_action = Some \<lparr>force_decision = Some ''MAYBE'', downgrade = None,
                           limit_per_day = None\<rparr>\<rparr>"

text \<open>
  A rule that forces one of the three labels, an event that carries a dedupe key, and the
  engine left behind by one call of \<^verbatim>\<open>process_event\<close>.
\<close>

definition demo_label_rule :: rule where
  "demo_label_rule =
     \<lparr>rule_id = Some ''R2'', priority = Some 5, description = Some ''messages go out now'',
      rule_match = Some \<lparr>m_event_type = Some [''message''], m_priority_hint = None,
                         m_channel = None, m_source = None, m_time_window = None\<rparr>,
      rule_action = Some \<lparr>force_decision = Some ''NOW'', downgrade = None,
                           limit_per_day = None\<rparr>\<rparr>"

definition demo_raw_keyed :: "string \<Rightarrow> raw_event" where
  "demo_raw_keyed ts = (demo_raw ts)\<lparr>r_dedupe_key := Some ''order-42''\<rparr>"

definition demo_event_keyed :: "datetime \<Rightarrow> event" where
  "demo_event_keyed ts = (demo_event ts)\<lparr>dedupe_key := Some ''order-42''\<rparr>"

definition demo_engine_after_first :: engine where
  "demo_engine_after_first =
     snd (process_event demo_lib (demo_world (mk_datetime 2026 2 27 9 1 0 (Some 0)))
            (DecisionEngine [demo_label_rule] False) (demo_raw ''2026-02-27T09:00:00Z''))"

section \<open>Notions used in the statements\<close>

definition LABELS :: "string list" where
  "LABELS = [''NOW'', ''LATER'', ''NEVER'']"

definition action_labels_ok :: "action \<Rightarrow> bool" where
  \<comment> \<open>\<^verbatim>\<open>force_decision\<close> and every value of \<^verbatim>\<open>downgrade\<close> is one of the three labels\<close>
  "action_labels_ok a =
     ((case force_decision a of None \<Rightarrow> True | Some d \<Rightarrow> d \<in> set LABELS)
      \<and> (case downgrade a of
            None \<Rightarrow> True
          | Some dg \<Rightarrow> list_all (\<lambda>(k, target). target \<in> set LABELS) dg))"

definition rules_labels_ok :: "rule list \<Rightarrow> bool" where
  "rules_labels_ok rs =
     list_all (\<lambda>r. case rule_action r of None \<Rightarrow> True | Some a \<Rightarrow> action_labels_ok a) rs"

definition outcome :: "pyerror + output_record \<Rightarrow> pyerror + string \<times> string" where
  \<comment> \<open>the decision label and explanation code of a call, or the exception it raised\<close>
  "outcome r =
     (case r of Inl err \<Rightarrow> Inl err
      | Inr out \<Rightarrow> Inr (o_decision out, o_explanation_code out))"

definition in_dedupe_window :: "world \<Rightarrow> site \<Rightarrow> datetime \<Rightarrow> bool" where
  \<comment> \<open>\<open>ts\<close> passes the cutoff \<^verbatim>\<open>get_recent\<close> computes from the clock reading at \<open>s\<close>\<close>
  "in_dedupe_window W s ts =
     (case dt_add (utc_now W s) (- (DEDUPE_WINDOW_MINUTES * US_PER_MINUTE)) of
        Inl err \<Rightarrow> False
      | Inr cutoff \<Rightarrow> dt_ge ts cutoff = Inr True)"

section \<open>Properties\<close>

subsection \<open>Datetime arithmetic\<close>

lemma US_PER_DAY_hours: "US_PER_DAY = 24 * US_PER_HOUR"
  by (simp add: US_PER_DAY_def US_PER_HOUR_def)

lemma US_PER_HOUR_minutes: "US_PER_HOUR = 60 * US_PER_MINUTE"
  by (simp add: US_PER_HOUR_def US_PER_MINUTE_def)

lemma US_PER_HOUR_pos: "0 < US_PER_HOUR"
  by (simp add: US_PER_HOUR_def)

lemma US_PER_MINUTE_pos: "0 < US_PER_MINUTE"
  by (simp add: US_PER_MINUTE_def)

lemma hour_replace_hour:
  assumes "0 \<le> h" "h < 24"
  shows "hour (replace_hour dt h) = h"
proof -
  have "((wall dt div US_PER_DAY) * US_PER_DAY + h * US_PER_HOUR) div US_PER_HOUR
          = (wall dt div US_PER_DAY) * 24 + h"
    using US_PER_HOUR_pos by (simp add: US_PER_DAY_hours)
  then show ?thesis
    using assms by (simp add: hour_def replace_hour_def)
qed

lemma minute_replace_hour: "minute (replace_hour dt h) = 0"
proof -
  have "((wall dt div US_PER_DAY) * US_PER_DAY + h * US_PER_HOUR) div US_PER_MINUTE
          = ((wall dt div US_PER_DAY) * 24 + h) * 60"
    using US_PER_MINUTE_pos by (simp add: US_PER_DAY_hours US_PER_HOUR_minutes algebra_simps)
  then show ?thesis
    by (simp add: minute_def replace_hour_def)
qed

lemma second_us_replace_hour: "second_us (replace_hour dt h) = 0"
  by (simp add: second_us_def replace_hour_def US_PER_DAY_hours US_PER_HOUR_minutes)

lemma date_of_replace_hour:
  assumes "0 \<le> h" "h < 24"
  shows "date_of (replace_hour dt h) = date_of dt"
proof -
  have "0 \<le> h * US_PER_HOUR" "h * US_PER_HOUR < US_PER_DAY"
    using assms by (simp_all add: US_PER_DAY_def US_PER_HOUR_def)
  then show ?thesis
    by (simp add: date_of_def replace_hour_def div_pos_pos_trivial US_PER_DAY_def)
qed

lemma dt_add_Inr:
  assumes "dt_add ts d = Inr t"
  shows "wall t = wall ts + d" "utcoffset t = utcoffset ts"
  using assms by (auto simp: dt_add_def Let_def split: if_splits)

lemma date_of_add_day:
  assumes "dt_add ts US_PER_DAY = Inr t"
  shows "date_of t = date_of ts + 1"
  using dt_add_Inr(1)[OF assms] by (simp add: date_of_def US_PER_DAY_def)

lemma is_quiet_hour_iff: "is_quiet_hour h \<longleftrightarrow> 22 \<le> h \<or> h < 6"
  by (simp add: is_quiet_hour_def QUIET_HOUR_START_def QUIET_HOUR_END_def)

lemma utcoffset_replace_hour: "utcoffset (replace_hour dt h) = utcoffset dt"
  by (simp add: replace_hour_def)

lemma dt_add_in_range:
  assumes "0 \<le> wall ts + d" "wall ts + d \<le> MAX_WALL"
  shows "dt_add ts d = Inr (ts\<lparr>wall := wall ts + d\<rparr>)"
  using assms by (simp add: dt_add_def Let_def)

text \<open>
  Claim C4. With explanation code \<^verbatim>\<open>RULE_OVERRIDE\<close>, \<^verbatim>\<open>compute_scheduled_time\<close>
  computes a time \<open>t\<close>: when the hour of the event's timestamp is a quiet hour (22 or
  later, or before 6), \<open>t\<close> is on the next calendar day at 08:00 with minutes, seconds and
  microseconds zero and the timestamp's UTC offset; otherwise \<open>t\<close> is the timestamp plus
  15 minutes. Without \<^verbatim>\<open>expires_at\<close> the call returns \<open>t\<close>; with it, the call
  compares \<open>t\<close> with the expiry and returns \<open>EXPIRED\<close> when \<open>t\<close> is later. The
  timestamp is taken to leave room for the delay below \<^verbatim>\<open>datetime.max\<close>, where the
  addition raises \<^verbatim>\<open>OverflowError\<close>.
\<close>

theorem rule_override_schedule_total:
  assumes "0 \<le> wall (parsed_timestamp ev)"
    and "wall (parsed_timestamp ev)
           + (if 22 \<le> hour (parsed_timestamp ev) \<or> hour (parsed_timestamp ev) < 6
              then US_PER_DAY else 15 * US_PER_MINUTE) \<le> MAX_WALL"
  shows "\<exists>t. (if 22 \<le> hour (parsed_timestamp ev) \<or> hour (parsed_timestamp ev) < 6
              then date_of t = date_of (parsed_timestamp ev) + 1
                   \<and> hour t = 8 \<and> minute t = 0 \<and> second_us t = 0
                   \<and> utcoffset t = utcoffset (parsed_timestamp ev)
              else wall t = wall (parsed_timestamp ev) + 15 * US_PER_MINUTE
                   \<and> utcoffset t = utcoffset (parsed_timestamp ev))
           \<and> compute_scheduled_time ev ''RULE_OVERRIDE'' frequency_count
               = (case expires_at ev of
                    None \<Rightarrow> Inr (At t)
                  | Some expiry \<Rightarrow>
                      bindE (dt_gt t expiry) (\<lambda>late. Inr (if late then EXPIRED else At t)))"
proof (cases "is_quiet_hour (hour (parsed_timestamp ev))")
  case True
  let ?ts = "parsed_timestamp ev"
  let ?nd = "?ts\<lparr>wall := wall ?ts + US_PER_DAY\<rparr>"
  let ?t = "replace_hour ?nd QUIET_RESUME_HOUR"
  from True have q: "22 \<le> hour ?ts \<or> hour ?ts < 6" by (simp add: is_quiet_hour_iff)
  have nd: "dt_add ?ts US_PER_DAY = Inr ?nd"
    using assms q by (intro dt_add_in_range) (simp_all add: US_PER_DAY_def)
  have "date_of ?t = date_of ?ts + 1"
    using date_of_add_day[OF nd] by (simp add: date_of_replace_hour QUIET_RESUME_HOUR_def)
  moreover have "hour ?t = 8"
    by (simp add: hour_replace_hour QUIET_RESUME_HOUR_def)
  moreover have "minute ?t = 0" "second_us ?t = 0"
    by (simp_all add: minute_replace_hour second_us_replace_hour)
  moreover have "utcoffset ?t = utcoffset ?ts"
    by (simp add: utcoffset_replace_hour)
  moreover have "compute_scheduled_time ev ''RULE_OVERRIDE'' frequency_count
               = (case expires_at ev of
                    None \<Rightarrow> Inr (At ?t)
                  | Some expiry \<Rightarrow>
                      bindE (dt_gt ?t expiry) (\<lambda>late. Inr (if late then EXPIRED else At ?t)))"
    using True nd by (simp add: compute_scheduled_time_def next_morning_def bindE_def Let_def)
  ultimately show ?thesis
    using q by (intro exI[of _ ?t]) simp
next
  case False
  let ?ts = "parsed_timestamp ev"
  let ?t = "?ts\<lparr>wall := wall ?ts + 15 * US_PER_MINUTE\<rparr>"
  from False have q: "\<not> (22 \<le> hour ?ts \<or> hour ?ts < 6)" by (simp add: is_quiet_hour_iff)
  have t: "dt_add ?ts (15 * US_PER_MINUTE) = Inr ?t"
    using assms q by (intro dt_add_in_range) (simp_all add: US_PER_MINUTE_def)
  have "compute_scheduled_time ev ''RULE_OVERRIDE'' frequency_count
               = (case expires_at ev of
                    None \<Rightarrow> Inr (At ?t)
                  | Some expiry \<Rightarrow>
                      bindE (dt_gt ?t expiry) (\<lambda>late. Inr (if late then EXPIRED else At ?t)))"
    using False t by (simp add: compute_scheduled_time_def bindE_def Let_def)
  then show ?thesis
    using q by (intro exI[of _ ?t]) simp
qed

theorem rule_override_schedule_total_witness:
  "(0 \<le> wall (parsed_timestamp (demo_event (mk_datetime 2026 2 27 23 30 0 (Some 0))))
    \<and> wall (parsed_timestamp (demo_event (mk_datetime 2026 2 27 23 30 0 (Some 0))))
        + (if 22 \<le> hour (parsed_timestamp (demo_event (mk_datetime 2026 2 27 23 30 0 (Some 0))))
              \<or> hour (parsed_timestamp (demo_event (mk_datetime 2026 2 27 23 30 0 (Some 0)))) < 6
           then US_PER_DAY else 15 * US_PER_MINUTE) \<le> MAX_WALL
    \<and> hour (parsed_timestamp (demo_event (mk_datetime 2026 2 27 23 30 0 (Some 0)))) = 23
    \<and> compute_scheduled_time (demo_event (mk_datetime 2026 2 27 23 30 0 (Some 0)))
          ''RULE_OVERRIDE'' 0 = Inr (At (mk_datetime 2026 2 28 8 0 0 (Some 0)))
    \<and> (\<exists>t. (if 22 \<le> hour (parsed_timestamp (demo_event (mk_datetime 2026 2 27 23 30 0 (Some 0))))
                  \<or> hour (parsed_timestamp (demo_event (mk_datetime 2026 2 27 23 30 0 (Some 0)))) < 6
               then date_of t
                      = date_of (parsed_timestamp (demo_event (mk_datetime 2026 2 27 23 30 0 (Some 0)))) + 1
                    \<and> hour t = 8 \<and> minute t = 0 \<and> second_us t = 0
                    \<and> utcoffset t
                        = utcoffset (parsed_timestamp (demo_event (mk_datetime 2026 2 27 23 30 0 (Some 0))))
               else wall t
                      = wall (parsed_timestamp (demo_event (mk_datetime 2026 2 27 23 30 0 (Some 0))))
                        + 15 * US_PER_MINUTE
                    \<and> utcoffset t
                        = utcoffset (parsed_timestamp (demo_event (mk_datetime 2026 2 27 23 30 0 (Some 0)))))
            \<and> compute_scheduled_time (demo_event (mk_datetime 2026 2 27 23 30 0 (Some 0)))
                  ''RULE_OVERRIDE'' 0
                = (case expires_at (demo_event (mk_datetime 2026 2 27 23 30 0 (Some 0))) of
                     None \<Rightarrow> Inr (At t)
                   | Some expiry \<Rightarrow>
                       bindE (dt_gt t expiry) (\<lambda>late. Inr (if late then EXPIRED else At t)))))
   \<and> (0 \<le> wall (parsed_timestamp (demo_event (mk_datetime 2026 2 27 9 0 0 (Some 0))))
    \<and> wall (parsed_timestamp (demo_event (mk_datetime 2026 2 27 9 0 0 (Some 0))))
        + (if 22 \<le> hour (parsed_timestamp (demo_event (mk_datetime 2026 2 27 9 0 0 (Some 0))))
              \<or> hour (parsed_timestamp (demo_event (mk_datetime 2026 2 27 9 0 0 (Some 0)))) < 6
           then US_PER_DAY else 15 * US_PER_MINUTE) \<le> MAX_WALL
    \<and> hour (parsed_timestamp (demo_event (mk_datetime 2026 2 27 9 0 0 (Some 0)))) = 9
    \<and> compute_scheduled_time (demo_event (mk_datetime 2026 2 27 9 0 0 (Some 0)))
          ''RULE_OVERRIDE'' 0 = Inr (At (mk_datetime 2026 2 27 9 15 0 (Some 0)))
    \<and> (\<exists>t. (if 22 \<le> hour (parsed_timestamp (demo_event (mk_datetime 2026 2 27 9 0 0 (Some 0))))
                  \<or> hour (parsed_timestamp (demo_event (mk_datetime 2026 2 27 9 0 0 (Some 0)))) < 6
               then date_of t
                      = date_of (parsed_timestamp (demo_event (mk_datetime 2026 2 27 9 0 0 (Some 0)))) + 1
                    \<and> hour t = 8 \<and> minute t = 0 \<and> second_us t = 0
                    \<and> utcoffset t
                        = utcoffset (parsed_timestamp (demo_event (mk_datetime 2026 2 27 9 0 0 (Some 0))))
               else wall t
                      = wall (parsed_timestamp (demo_event (mk_datetime 2026 2 27 9 0 0 (Some 0))))
                        + 15 * US_PER_MINUTE
                    \<and> utcoffset t
                        = utcoffset (parsed_timestamp (demo_event (mk_datetime 2026 2 27 9 0 0 (Some 0)))))
            \<and> compute_scheduled_time (demo_event (mk_datetime 2026 2 27 9 0 0 (Some 0)))
                  ''RULE_OVERRIDE'' 0
                = (case expires_at (demo_event (mk_datetime 2026 2 27 9 0 0 (Some 0))) of
                     None \<Rightarrow> Inr (At t)
                   | Some expiry \<Rightarrow>
                       bindE (dt_gt t expiry) (\<lambda>late. Inr (if late then EXPIRED else At t)))))"
proof -
  have q1: "0 \<le> wall (parsed_timestamp (demo_event (mk_datetime 2026 2 27 23 30 0 (Some 0))))"
    by code_simp
  have q2: "wall (parsed_timestamp (demo_event (mk_datetime 2026 2 27 23 30 0 (Some 0))))
        + (if 22 \<le> hour (parsed_timestamp (demo_event (mk_datetime 2026 2 27 23 30 0 (Some 0))))
              \<or> hour (parsed_timestamp (demo_event (mk_datetime 2026 2 27 23 30 0 (Some 0)))) < 6
           then US_PER_DAY else 15 * US_PER_MINUTE) \<le> MAX_WALL"
    by code_simp
  have q3: "hour (parsed_timestamp (demo_event (mk_datetime 2026 2 27 23 30 0 (Some 0)))) = 23"
    by code_simp
  have q4: "compute_scheduled_time (demo_event (mk_datetime 2026 2 27 23 30 0 (Some 0)))
          ''RULE_OVERRIDE'' 0 = Inr (At (mk_datetime 2026 2 28 8 0 0 (Some 0)))"
    by code_simp
  note q5 = rule_override_schedule_total[OF q1 q2, of 0]
  have d1: "0 \<le> wall (parsed_timestamp (demo_event (mk_datetime 2026 2 27 9 0 0 (Some 0))))"
    by code_simp
  have d2: "wall (parsed_timestamp (demo_event (mk_datetime 2026 2 27 9 0 0 (Some 0))))
        + (if 22 \<le> hour (parsed_timestamp (demo_event (mk_datetime 2026 2 27 9 0 0 (Some 0))))
              \<or> hour (parsed_timestamp (demo_event (mk_datetime 2026 2 27 9 0 0 (Some 0)))) < 6
           then US_PER_DAY else 15 * US_PER_MINUTE) \<le> MAX_WALL"
    by code_simp
  have d3: "hour (parsed_timestamp (demo_event (mk_datetime 2026 2 27 9 0 0 (Some 0)))) = 9"
    by code_simp
  have d4: "compute_scheduled_time (demo_event (mk_datetime 2026 2 27 9 0 0 (Some 0)))
          ''RULE_OVERRIDE'' 0 = Inr (At (mk_datetime 2026 2 27 9 15 0 (Some 0)))"
    by code_simp
  note d5 = rule_override_schedule_total[OF d1 d2, of 0]
  show ?thesis
    by (rule conjI[OF conjI[OF q1 conjI[OF q2 conjI[OF q3 conjI[OF q4 q5]]]]
                      conjI[OF d1 conjI[OF d2 conjI[OF d3 conjI[OF d4 d5]]]]])
qed

lemma dt_gt_same_offset:
  assumes "utcoffset a = utcoffset b" "wall b < wall a"
  shows "dt_gt a b = Inr True"
  using assms by (cases "utcoffset b") (auto simp: dt_gt_def dt_le_def bindE_def)

lemma wall_lt_next_day:
  "wall dt < ((wall dt + US_PER_DAY) div US_PER_DAY) * US_PER_DAY + h * US_PER_HOUR"
  if "0 \<le> h"
proof -
  have "(wall dt + US_PER_DAY) div US_PER_DAY = wall dt div US_PER_DAY + 1"
    by (simp add: US_PER_DAY_def)
  moreover have "wall dt < (wall dt div US_PER_DAY + 1) * US_PER_DAY"
    using div_mult_mod_eq[of "wall dt" US_PER_DAY] pos_mod_bound[of US_PER_DAY "wall dt"]
    by (simp add: US_PER_DAY_def algebra_simps)
  moreover have "0 \<le> h * US_PER_HOUR"
    using that by (simp add: US_PER_HOUR_def)
  ultimately show ?thesis by simp
qed

lemma wall_lt_same_day:
  assumes "hour dt < h"
  shows "wall dt < (wall dt div US_PER_DAY) * US_PER_DAY + h * US_PER_HOUR"
proof -
  have "wall dt mod US_PER_DAY
          = US_PER_HOUR * ((wall dt div US_PER_HOUR) mod 24) + wall dt mod US_PER_HOUR"
    using zmod_zmult2_eq[of 24 "wall dt" US_PER_HOUR] by (simp add: US_PER_DAY_hours mult.commute)
  moreover have "wall dt mod US_PER_HOUR < US_PER_HOUR"
    using US_PER_HOUR_pos by simp
  moreover have "(wall dt div US_PER_HOUR) mod 24 + 1 \<le> h"
    using assms by (simp add: hour_def)
  then have "US_PER_HOUR * ((wall dt div US_PER_HOUR) mod 24 + 1) \<le> US_PER_HOUR * h"
    using US_PER_HOUR_pos by (simp only: mult_le_cancel_left_pos)
  ultimately have "wall dt mod US_PER_DAY < h * US_PER_HOUR"
    by (simp add: algebra_simps)
  then show ?thesis
    using div_mult_mod_eq[of "wall dt" US_PER_DAY] by linarith
qed

lemma scheduled_branch_later:
  assumes "(if code = ''RULE_OVERRIDE''
            then (if is_quiet_hour (hour ts) then next_morning ts
                  else dt_add ts (15 * US_PER_MINUTE))
            else if code = ''FREQUENCY_LIMIT''
            then (let backoff = BASE_BACKOFF_MINUTES * max 1 (frequency_count - 3)
                  in dt_add ts (backoff * US_PER_MINUTE))
            else if etype = ''reminder''
            then next_working_hour ts
            else dt_add ts (15 * US_PER_MINUTE)) = Inr t"
  shows "utcoffset t = utcoffset ts \<and> wall ts < wall t"
proof -
  have add: "utcoffset t = utcoffset ts \<and> wall ts < wall t"
    if "dt_add ts d = Inr t" "0 < d" for d
    using dt_add_Inr[OF that(1)] that(2) by simp
  have nxt: "utcoffset t = utcoffset ts \<and> wall ts < wall t"
    if "dt_add ts US_PER_DAY = Inr nd" "t = replace_hour nd h" "0 \<le> h" for nd h
    using dt_add_Inr[OF that(1)] wall_lt_next_day[OF that(3), of ts]
    by (simp add: that(2) replace_hour_def)
  have backoff: "0 < BASE_BACKOFF_MINUTES * max 1 (frequency_count - 3) * US_PER_MINUTE"
    by (simp add: BASE_BACKOFF_MINUTES_def US_PER_MINUTE_def)
  consider (quiet) "next_morning ts = Inr t"
    | (plus15) "dt_add ts (15 * US_PER_MINUTE) = Inr t"
    | (freq) "dt_add ts (BASE_BACKOFF_MINUTES * max 1 (frequency_count - 3) * US_PER_MINUTE) = Inr t"
    | (reminder) "next_working_hour ts = Inr t"
    using assms by (auto simp: Let_def split: if_splits)
  then show ?thesis
  proof cases
    case quiet
    then obtain nd where "dt_add ts US_PER_DAY = Inr nd" "t = replace_hour nd QUIET_RESUME_HOUR"
      by (auto simp: next_morning_def bindE_def split: sum.splits)
    then show ?thesis
      by (rule nxt) (simp add: QUIET_RESUME_HOUR_def)
  next
    case plus15
    then show ?thesis by (rule add) (simp add: US_PER_MINUTE_def)
  next
    case freq
    then show ?thesis by (rule add) (rule backoff)
  next
    case reminder
    show ?thesis
    proof (cases "hour ts < DEFAULT_WORKING_HOUR")
      case True
      with reminder have "t = replace_hour ts DEFAULT_WORKING_HOUR"
        by (simp add: next_working_hour_def)
      then show ?thesis
        using wall_lt_same_day[OF True] by (simp add: replace_hour_def)
    next
      case False
      with reminder obtain nd where
        "dt_add ts US_PER_DAY = Inr nd" "t = replace_hour nd DEFAULT_WORKING_HOUR"
        by (auto simp: next_working_hour_def bindE_def split: sum.splits)
      then show ?thesis
        by (rule nxt) (simp add: DEFAULT_WORKING_HOUR_def)
    qed
  qed
qed

text \<open>
  Claim C7. Whatever the explanation code and the frequency count, a time that
  \<^verbatim>\<open>compute_scheduled_time\<close> returns is strictly greater than the event's timestamp.
\<close>

theorem scheduled_time_after_timestamp:
  assumes "compute_scheduled_time ev code frequency_count = Inr (At t)"
  shows "dt_gt t (parsed_timestamp ev) = Inr True \<and> wall (parsed_timestamp ev) < wall t"
proof -
  from assms obtain sched where
    branch: "(if code = ''RULE_OVERRIDE''
            then (if is_quiet_hour (hour (parsed_timestamp ev)) then next_morning (parsed_timestamp ev)
                  else dt_add (parsed_timestamp ev) (15 * US_PER_MINUTE))
            else if code = ''FREQUENCY_LIMIT''
            then (let backoff = BASE_BACKOFF_MINUTES * max 1 (frequency_count - 3)
                  in dt_add (parsed_timestamp ev) (backoff * US_PER_MINUTE))
            else if event_type ev = ''reminder''
            then next_working_hour (parsed_timestamp ev)
            else dt_add (parsed_timestamp ev) (15 * US_PER_MINUTE)) = Inr sched"
    and "t = sched"
    unfolding compute_scheduled_time_def Let_def bindE_def
    by (auto split: sum.splits option.splits if_splits)
  with scheduled_branch_later[OF branch] show ?thesis
    by (simp add: dt_gt_same_offset)
qed

theorem scheduled_time_after_timestamp_witness:
  "compute_scheduled_time (demo_event (mk_datetime 2026 2 27 9 0 0 (Some 0))) ''FREQUENCY_LIMIT'' 6
     = Inr (At (mk_datetime 2026 2 27 9 15 0 (Some 0)))
   \<and> dt_gt (mk_datetime 2026 2 27 9 15 0 (Some 0))
        (parsed_timestamp (demo_event (mk_datetime 2026 2 27 9 0 0 (Some 0)))) = Inr True"
proof -
  have run: "compute_scheduled_time (demo_event (mk_datetime 2026 2 27 9 0 0 (Some 0)))
               ''FREQUENCY_LIMIT'' 6 = Inr (At (mk_datetime 2026 2 27 9 15 0 (Some 0)))"
    by code_simp
  show ?thesis
    using scheduled_time_after_timestamp[OF run] run by simp
qed

text \<open>
  Claim C8. On \<^verbatim>\<open>"abcdefghij"\<close> and \<^verbatim>\<open>"abcdefghi"\<close> the distance is 1 and the longer length
  10, so the ratio \<open>1 - distance / max_len\<close> is 0.9 and the length difference over the
  longer length is 0.1, which does not exceed \<open>1 - 0.9\<close>. The code returns 0.0: the
  binary64 value of \<^verbatim>\<open>1 - TEXT_SIMILARITY_THRESHOLD\<close> is below the binary64 value of
  \<^verbatim>\<open>1 / 10\<close>, and the length gate rejects the pair. Past the gate the function would
  return \<^verbatim>\<open>1.0 - 1 / 10\<close>, which reaches the threshold.
\<close>

theorem length_gate_rejects_ratio_at_threshold:
  "levenshtein_ratio ''abcdefghij'' ''abcdefghi'' = 0
   \<and> levenshtein_distance ''abcdefghij'' ''abcdefghi'' = 1
   \<and> max (length ''abcdefghij'') (length ''abcdefghi'') = 10
   \<and> fsub 1 TEXT_SIMILARITY_THRESHOLD < 1 / 10
   \<and> TEXT_SIMILARITY_THRESHOLD \<le> fsub 1 (int_truediv 1 10)"
  by code_simp

text \<open>
  The same holds for every pair of different non-empty strings whose lengths differ by
  exactly a tenth of the longer one.
\<close>

lemma length_gate_at_ten_percent:
  assumes "s1 \<noteq> s2" "s1 \<noteq> []" "s2 \<noteq> []"
    and "10 * \<bar>int (length s1) - int (length s2)\<bar> = max (int (length s1)) (int (length s2))"
  shows "levenshtein_ratio s1 s2 = 0"
proof -
  let ?d = "\<bar>int (length s1) - int (length s2)\<bar>"
  let ?m = "max (int (length s1)) (int (length s2))"
  have "0 < ?m" using assms(2) by (simp add: less_max_iff_disj)
  have "?d \<noteq> 0"
  proof
    assume "?d = 0"
    with assms(4) have "?m = 0" by simp
    with \<open>0 < ?m\<close> show False by simp
  qed
  then have "(of_int ?d :: rat) / of_int ?m = 1 / 10"
    by (simp add: assms(4)[symmetric])
  then have "int_truediv ?d ?m = fl (1 / 10)"
    by (simp only: int_truediv_def)
  moreover have "fsub 1 TEXT_SIMILARITY_THRESHOLD < fl (1 / 10)"
    by code_simp
  ultimately show ?thesis
    using assms(1-3) by (simp add: levenshtein_ratio_def Let_def)
qed

subsection \<open>The pipeline\<close>

text \<open>
  Claim C9. When validation fails, \<^verbatim>\<open>process_event\<close> returns the NEVER /
  \<^verbatim>\<open>VALIDATION_ERROR\<close> record holding the raw event, and the engine it leaves is the engine
  it was given: the history of every user, the logger's list and the classifier's counter
  are unchanged.
\<close>

theorem validation_failure_changes_nothing:
  assumes "validate_event L W raw = Inl e"
  shows "process_event L W st raw =
           (Inr \<lparr>o_input_event = RawInput raw, o_decision = ''NEVER'',
                 o_scheduled_time = None, o_explanation_code = ''VALIDATION_ERROR'',
                 o_reason = InvalidEvent e, o_matched_rule_id = None\<rparr>, st)"
  using assms by (simp add: process_event_def)

theorem validation_failure_changes_nothing_witness:
  "validate_event demo_lib (demo_world (mk_datetime 2026 2 27 9 1 0 (Some 0)))
     (demo_raw ''yesterday'') = Inl (InvalidTimestamp ''yesterday'')
   \<and> process_event demo_lib (demo_world (mk_datetime 2026 2 27 9 1 0 (Some 0))) (DecisionEngine [] False)
        (demo_raw ''yesterday'')
       = (Inr \<lparr>o_input_event = RawInput (demo_raw ''yesterday''), o_decision = ''NEVER'',
                 o_scheduled_time = None, o_explanation_code = ''VALIDATION_ERROR'',
                 o_reason = InvalidEvent (InvalidTimestamp ''yesterday''),
                 o_matched_rule_id = None\<rparr>, DecisionEngine [] False)"
proof -
  have bad: "validate_event demo_lib (demo_world (mk_datetime 2026 2 27 9 1 0 (Some 0)))
     (demo_raw ''yesterday'') = Inl (InvalidTimestamp ''yesterday'')"
    by code_simp
  show ?thesis
    using validation_failure_changes_nothing[OF bad] bad by simp
qed

lemma step7_schedule_iff:
  assumes "step7_schedule ev freq_count v = Inr (v', sched)"
  shows "sched \<noteq> None \<longleftrightarrow> current_decision v' = ''LATER''"
  using assms
  by (auto simp: step7_schedule_def bindE_def split: if_splits sum.splits scheduled.splits)

lemma decide_schedule_iff:
  assumes "decide W st ev r = Inr (v, sched)"
  shows "sched \<noteq> None \<longleftrightarrow> current_decision v = ''LATER''"
  using assms step7_schedule_iff
  by (auto simp: decide_def bindE_def Let_def split: sum.splits)

lemma get_output_record_fields:
  "o_decision (get_output_record ev (fst (logger_log lg ev d s c w r cf ro))) = d"
  "o_scheduled_time (get_output_record ev (fst (logger_log lg ev d s c w r cf ro))) = s"
  "o_explanation_code (get_output_record ev (fst (logger_log lg ev d s c w r cf ro))) = c"
  "o_input_event (get_output_record ev (fst (logger_log lg ev d s c w r cf ro)))
     = CleanInput (filter (\<lambda>(k, v). k \<notin> {''parsed_timestamp'', ''event_id''}) (event_items ev))"
  by (simp_all add: get_output_record_def logger_log_def Let_def)

lemma process_event_returned:
  assumes "validate_event L W raw = Inr ev"
    and "process_event L W st raw = (Inr out, st')"
  shows "o_input_event out
           = CleanInput (filter (\<lambda>(k, v). k \<notin> {''parsed_timestamp'', ''event_id''})
                           (event_items ev))
         \<and> history st' = record_history L (history st) ev (o_decision out)
                            (o_explanation_code out)
         \<and> ((\<exists>matched_id.
               check L W (history st) ev = Inr (Duplicate (o_explanation_code out) matched_id)
               \<and> o_decision out = ''NEVER'' \<and> o_scheduled_time out = None)
            \<or> (\<exists>v.
               check L W (history st) ev = Inr NotDuplicate
               \<and> decide W (st\<lparr>llm := snd (classify L (llm st) ev)\<rparr>) ev
                    (fst (classify L (llm st) ev)) = Inr (v, o_scheduled_time out)
               \<and> o_decision out = current_decision v
               \<and> o_explanation_code out = explanation_code v))"
proof (cases "check L W (history st) ev")
  case (Inl err)
  with assms show ?thesis by (simp add: process_event_def)
next
  case (Inr dup)
  show ?thesis
  proof (cases dup)
    case NotDuplicate
    with Inr assms show ?thesis
      by (auto simp: process_event_def Let_def get_output_record_fields
               split: sum.splits prod.splits)
  next
    case (Duplicate dup_type matched_id)
    with Inr assms show ?thesis
      by (auto simp: process_event_def Let_def get_output_record_fields)
  qed
qed

text \<open>
  Claim C5. In every output record \<^verbatim>\<open>process_event\<close> returns, \<^verbatim>\<open>scheduled_time\<close> is not
  \<^verbatim>\<open>None\<close> exactly when the decision is \<^verbatim>\<open>LATER\<close>.
\<close>

theorem scheduled_time_iff_later:
  assumes "fst (process_event L W st raw) = Inr out"
  shows "o_scheduled_time out \<noteq> None \<longleftrightarrow> o_decision out = ''LATER''"
proof -
  obtain st' where run: "process_event L W st raw = (Inr out, st')"
    using assms by (cases "process_event L W st raw") simp
  show ?thesis
  proof (cases "validate_event L W raw")
    case (Inl e)
    with run show ?thesis by (auto simp: process_event_def)
  next
    case (Inr ev)
    from process_event_returned[OF Inr run] show ?thesis
      by (auto dest: decide_schedule_iff)
  qed
qed

lemma dict_get_event_type_label:
  "dict_get FALLBACK_EVENT_TYPE_MAP k ''LATER'' \<in> set LABELS"
  by (simp add: dict_get_def FALLBACK_EVENT_TYPE_MAP_def LABELS_def)

lemma fallback_map_label:
  "map_of FALLBACK_MAP p = Some l \<Longrightarrow> l \<in> set LABELS"
  by (auto simp: FALLBACK_MAP_def LABELS_def split: if_splits)

lemma llm_classify_label: "label (llm_classify L ev) \<in> set LABELS"
proof (cases "boosted_scores L ev")
  case (fields urgent_score promo_score later_score)
  then show ?thesis
    using dict_get_event_type_label[of "event_type ev"]
    by (simp add: llm_classify_def Let_def LABELS_def)
qed

lemma fallback_label: "label (fallback ev reason_text) \<in> set LABELS"
  using dict_get_event_type_label[of "event_type ev"] fallback_map_label
  by (auto simp: fallback_def Let_def split: option.splits)

lemma classify_label: "label (fst (classify L c ev)) \<in> set LABELS"
  by (simp add: classify_def Let_def llm_classify_label fallback_label)

lemma apply_downgrade_label:
  assumes "action_labels_ok (mr_action m)" "rr_decision result \<in> set LABELS"
  shows "rr_decision (fst (apply_downgrade m cur result)) \<in> set LABELS"
proof (cases "downgrade (mr_action m)")
  case None
  with assms show ?thesis by (simp add: apply_downgrade_def)
next
  case (Some dg)
  show ?thesis
  proof (cases "map_of dg cur")
    case None
    with Some assms show ?thesis by (simp add: apply_downgrade_def)
  next
    case (Some target)
    then have "(cur, target) \<in> set dg" by (rule map_of_SomeD)
    with assms(1) \<open>downgrade (mr_action m) = Some dg\<close> have "target \<in> set LABELS"
      by (auto simp: action_labels_ok_def list_all_iff)
    with Some \<open>downgrade (mr_action m) = Some dg\<close> show ?thesis
      by (simp add: apply_downgrade_def)
  qed
qed

lemma apply_rule_label:
  assumes "action_labels_ok (mr_action m)" "rr_decision result \<in> set LABELS"
  shows "case apply_rule W store ev k m cur result of
           Inl final \<Rightarrow> rr_decision final \<in> set LABELS
         | Inr (result1, cur1) \<Rightarrow> rr_decision result1 \<in> set LABELS"
proof (cases "force_decision (mr_action m)")
  case (Some forced)
  with assms(1) show ?thesis
    by (simp add: apply_rule_def Let_def action_labels_ok_def)
next
  case None
  have "rr_decision (fst (apply_downgrade m cur result)) \<in> set LABELS"
    using assms by (rule apply_downgrade_label)
  with None show ?thesis
    by (cases "apply_downgrade m cur result")
       (auto simp: apply_rule_def Let_def LABELS_def split: option.splits)
qed

lemma apply_loop_label:
  assumes "list_all (\<lambda>m. action_labels_ok (mr_action m)) ms" "rr_decision result \<in> set LABELS"
  shows "rr_decision (apply_loop W store ev k ms cur result) \<in> set LABELS"
  using assms
proof (induction ms arbitrary: k cur result)
  case Nil
  then show ?case by simp
next
  case (Cons m ms)
  from Cons.prems have ok: "action_labels_ok (mr_action m)" by simp
  show ?case
  proof (cases "apply_rule W store ev k m cur result")
    case (Inl final)
    with apply_rule_label[OF ok Cons.prems(2), of W store ev k cur] show ?thesis by simp
  next
    case (Inr pair)
    obtain result1 cur1 where pair: "pair = (result1, cur1)" by (cases pair)
    with Inr apply_rule_label[OF ok Cons.prems(2), of W store ev k cur]
    have "rr_decision result1 \<in> set LABELS" by simp
    with Cons.prems(1) have "rr_decision (apply_loop W store ev (Suc k) ms cur1 result1) \<in> set LABELS"
      by (intro Cons.IH) simp_all
    with Inr pair show ?thesis by simp
  qed
qed

lemma match_rules_labels_ok:
  assumes "rules_labels_ok rs"
  shows "list_all (\<lambda>m. action_labels_ok (mr_action m)) (match_rules rs ev)"
proof -
  have "action_labels_ok
          (case rule_action r of
             Some a \<Rightarrow> a
           | None \<Rightarrow> \<lparr>force_decision = None, downgrade = None, limit_per_day = None\<rparr>)"
    if "r \<in> set rs" for r
  proof (cases "rule_action r")
    case None
    then show ?thesis by (simp add: action_labels_ok_def)
  next
    case (Some a)
    from assms that have "case rule_action r of None \<Rightarrow> True | Some a \<Rightarrow> action_labels_ok a"
      by (simp add: rules_labels_ok_def list_all_iff)
    with Some show ?thesis by simp
  qed
  then show ?thesis
    by (simp add: match_rules_def list_all_iff)
qed

lemma step4_rules_label:
  assumes "rules_labels_ok (rules st)" "current_decision v \<in> set LABELS"
  shows "current_decision (step4_rules W st ev v) \<in> set LABELS"
proof -
  have "rr_decision (apply_actions W (history st) ev (match_rules (rules st) ev)
          (current_decision v)) \<in> set LABELS"
    unfolding apply_actions_def
    by (rule apply_loop_label) (simp_all add: match_rules_labels_ok assms)
  with assms(2) show ?thesis
    by (simp add: step4_rules_def Let_def)
qed

lemma step5_frequency_label:
  "current_decision v \<in> set LABELS \<Longrightarrow> current_decision (step5_frequency ev n v) \<in> set LABELS"
  by (auto simp: step5_frequency_def LABELS_def)

lemma step6_noise_label:
  "step6_noise W st ev v = Inr v' \<Longrightarrow> current_decision v \<in> set LABELS
     \<Longrightarrow> current_decision v' \<in> set LABELS"
  by (auto simp: step6_noise_def bindE_def LABELS_def split: if_splits sum.splits)

lemma step7_schedule_label:
  "step7_schedule ev n v = Inr (v', sched) \<Longrightarrow> current_decision v \<in> set LABELS
     \<Longrightarrow> current_decision v' \<in> set LABELS"
  by (auto simp: step7_schedule_def bindE_def LABELS_def
           split: if_splits sum.splits scheduled.splits)

lemma decide_label:
  assumes "decide W st ev r = Inr (v, sched)" "rules_labels_ok (rules st)"
    "label r \<in> set LABELS"
  shows "current_decision v \<in> set LABELS"
proof -
  let ?v3 = "\<lparr>current_decision = label r, explanation_code = llm_explanation_code r,
               why = ModelReason (raw_output r), matched_rule_id = None\<rparr>"
  from assms(1) obtain n v6 where
    v6: "step6_noise W st ev (step5_frequency ev n (step4_rules W st ev ?v3)) = Inr v6"
    and v7: "step7_schedule ev n v6 = Inr (v, sched)"
    by (auto simp: decide_def bindE_def Let_def split: sum.splits)
  have "current_decision (step4_rules W st ev ?v3) \<in> set LABELS"
    by (rule step4_rules_label) (simp_all add: assms)
  then have "current_decision (step5_frequency ev n (step4_rules W st ev ?v3)) \<in> set LABELS"
    by (rule step5_frequency_label)
  with v6 have "current_decision v6 \<in> set LABELS" by (rule step6_noise_label)
  with v7 show ?thesis by (rule step7_schedule_label)
qed

text \<open>
  Claim C1, amended. When every \<^verbatim>\<open>force_decision\<close> and every \<^verbatim>\<open>downgrade\<close> target of the
  loaded rules is one of the three labels, the decision of every output record is
  \<^verbatim>\<open>NOW\<close>, \<^verbatim>\<open>LATER\<close> or \<^verbatim>\<open>NEVER\<close>.
\<close>

theorem decision_is_label_when_rules_use_labels:
  assumes "rules_labels_ok (rules st)"
    and "fst (process_event L W st raw) = Inr out"
  shows "o_decision out \<in> {''NOW'', ''LATER'', ''NEVER''}"
proof -
  obtain st' where run: "process_event L W st raw = (Inr out, st')"
    using assms(2) by (cases "process_event L W st raw") simp
  show ?thesis
  proof (cases "validate_event L W raw")
    case (Inl e)
    with run show ?thesis by (auto simp: process_event_def)
  next
    case (Inr ev)
    from process_event_returned[OF Inr run] show ?thesis
    proof (elim conjE disjE exE)
      fix matched_id
      assume "o_decision out = ''NEVER''"
      then show ?thesis by simp
    next
      fix v
      assume d: "decide W (st\<lparr>llm := snd (classify L (llm st) ev)\<rparr>) ev
                   (fst (classify L (llm st) ev)) = Inr (v, o_scheduled_time out)"
        and o: "o_decision out = current_decision v"
      have "current_decision v \<in> set LABELS"
        using d by (rule decide_label) (simp_all add: assms(1) classify_label)
      with o show ?thesis by (simp add: LABELS_def)
    qed
  qed
qed

lemma outcome_returned:
  "outcome r = Inr p \<Longrightarrow> r = Inr (projr r)"
  by (cases r) (simp_all add: outcome_def)

lemma outcome_decision:
  "outcome r = Inr (d, c) \<Longrightarrow> o_decision (projr r) = d"
  by (cases r) (simp_all add: outcome_def)


theorem decision_is_label_when_rules_use_labels_witness:
  "rules_labels_ok (rules (DecisionEngine [demo_label_rule] False))
   \<and> match_rules (rules (DecisionEngine [demo_label_rule] False))
        (demo_event (mk_datetime 2026 2 27 9 0 0 (Some 0))) \<noteq> []
   \<and> outcome (fst (process_event demo_lib (demo_world (mk_datetime 2026 2 27 9 1 0 (Some 0)))
        (DecisionEngine [demo_label_rule] False) (demo_raw ''2026-02-27T09:00:00Z'')))
       = Inr (''NOW'', ''RULE_OVERRIDE'')
   \<and> o_decision (projr (fst (process_event demo_lib
        (demo_world (mk_datetime 2026 2 27 9 1 0 (Some 0)))
        (DecisionEngine [demo_label_rule] False) (demo_raw ''2026-02-27T09:00:00Z''))))
       \<in> {''NOW'', ''LATER'', ''NEVER''}"
proof -
  have ok: "rules_labels_ok (rules (DecisionEngine [demo_label_rule] False))" by code_simp
  have fires: "match_rules (rules (DecisionEngine [demo_label_rule] False))
        (demo_event (mk_datetime 2026 2 27 9 0 0 (Some 0))) \<noteq> []" by code_simp
  have oc: "outcome (fst (process_event demo_lib
        (demo_world (mk_datetime 2026 2 27 9 1 0 (Some 0)))
        (DecisionEngine [demo_label_rule] False) (demo_raw ''2026-02-27T09:00:00Z'')))
       = Inr (''NOW'', ''RULE_OVERRIDE'')" by code_simp
  note lbl = decision_is_label_when_rules_use_labels[OF ok outcome_returned[OF oc]]
  show ?thesis
    by (rule conjI[OF ok conjI[OF fires conjI[OF oc lbl]]])
qed

text \<open>
  Claim C1 as stated fails: the loader accepts a rule whose \<^verbatim>\<open>force_decision\<close> is
  \<^verbatim>\<open>"MAYBE"\<close>, and the engine returns that string as the decision.
\<close>

theorem forced_decision_outside_labels:
  "outcome (fst (process_event demo_lib (demo_world (mk_datetime 2026 2 27 9 1 0 (Some 0)))
      (DecisionEngine [demo_force_rule] False) (demo_raw ''2026-02-27T09:00:00Z'')))
     = Inr (''MAYBE'', ''RULE_OVERRIDE'')"
  by code_simp

theorem scheduled_time_iff_later_witness:
  "outcome (fst (process_event demo_lib (demo_world (mk_datetime 2026 2 27 9 1 0 (Some 0)))
        (DecisionEngine [] False) (demo_raw ''2026-02-27T09:00:00Z'')))
       = Inr (''LATER'', ''LLM_DECISION'')
   \<and> (o_scheduled_time (projr (fst (process_event demo_lib
          (demo_world (mk_datetime 2026 2 27 9 1 0 (Some 0)))
          (DecisionEngine [] False) (demo_raw ''2026-02-27T09:00:00Z'')))) \<noteq> None
        \<longleftrightarrow> o_decision (projr (fst (process_event demo_lib
          (demo_world (mk_datetime 2026 2 27 9 1 0 (Some 0)))
          (DecisionEngine [] False) (demo_raw ''2026-02-27T09:00:00Z'')))) = ''LATER'')"
proof -
  have oc: "outcome (fst (process_event demo_lib
        (demo_world (mk_datetime 2026 2 27 9 1 0 (Some 0)))
        (DecisionEngine [] False) (demo_raw ''2026-02-27T09:00:00Z'')))
       = Inr (''LATER'', ''LLM_DECISION'')" by code_simp
  note iff = scheduled_time_iff_later[OF outcome_returned[OF oc]]
  show ?thesis
    by (rule conjI[OF oc iff])
qed

text \<open>
  Claim C10. The \<^verbatim>\<open>input_event\<close> of an output record for a validated event has exactly
  the keys of the validated event other than \<^verbatim>\<open>parsed_timestamp\<close> and \<^verbatim>\<open>event_id\<close>, in
  the validated event's order, each with the validated event's value.
\<close>

theorem input_event_drops_internal_fields:
  assumes "validate_event L W raw = Inr ev"
    and "fst (process_event L W st raw) = Inr out"
  shows "\<exists>items. o_input_event out = CleanInput items
           \<and> map fst items = [''user_id'', ''event_type'', ''title'', ''message'', ''source'',
                ''priority_hint'', ''timestamp'', ''channel'', ''metadata'', ''dedupe_key'',
                ''expires_at'']
           \<and> (\<forall>k. map_of items k
                 = (if k = ''parsed_timestamp'' \<or> k = ''event_id'' then None
                    else map_of (event_items ev) k))"
proof -
  obtain st' where run: "process_event L W st raw = (Inr out, st')"
    using assms(2) by (cases "process_event L W st raw") simp
  let ?items = "filter (\<lambda>(k, v). k \<notin> {''parsed_timestamp'', ''event_id''}) (event_items ev)"
  have "o_input_event out = CleanInput ?items"
    using process_event_returned[OF assms(1) run] by simp
  moreover have "map fst ?items = [''user_id'', ''event_type'', ''title'', ''message'',
      ''source'', ''priority_hint'', ''timestamp'', ''channel'', ''metadata'', ''dedupe_key'',
      ''expires_at'']"
    by (simp add: event_items_def)
  moreover have "map_of ?items k
       = (if k = ''parsed_timestamp'' \<or> k = ''event_id'' then None
          else map_of (event_items ev) k)" for k
    by (simp add: event_items_def)
  ultimately show ?thesis
    by (intro exI[of _ ?items] conjI allI)
qed

theorem input_event_drops_internal_fields_witness:
  "validate_event demo_lib (demo_world (mk_datetime 2026 2 27 9 1 0 (Some 0)))
      (demo_raw ''2026-02-27T09:00:00Z'')
     = Inr (demo_event (mk_datetime 2026 2 27 9 0 0 (Some 0)))
   \<and> outcome (fst (process_event demo_lib (demo_world (mk_datetime 2026 2 27 9 1 0 (Some 0)))
        (DecisionEngine [] False) (demo_raw ''2026-02-27T09:00:00Z'')))
       = Inr (''LATER'', ''LLM_DECISION'')
   \<and> (\<exists>items. o_input_event (projr (fst (process_event demo_lib
             (demo_world (mk_datetime 2026 2 27 9 1 0 (Some 0)))
             (DecisionEngine [] False) (demo_raw ''2026-02-27T09:00:00Z'')))) = CleanInput items
           \<and> map fst items = [''user_id'', ''event_type'', ''title'', ''message'', ''source'',
                ''priority_hint'', ''timestamp'', ''channel'', ''metadata'', ''dedupe_key'',
                ''expires_at'']
           \<and> (\<forall>k. map_of items k
                 = (if k = ''parsed_timestamp'' \<or> k = ''event_id'' then None
                    else map_of (event_items (demo_event (mk_datetime 2026 2 27 9 0 0 (Some 0)))) k)))"
proof -
  have valid: "validate_event demo_lib (demo_world (mk_datetime 2026 2 27 9 1 0 (Some 0)))
      (demo_raw ''2026-02-27T09:00:00Z'')
     = Inr (demo_event (mk_datetime 2026 2 27 9 0 0 (Some 0)))" by code_simp
  have oc: "outcome (fst (process_event demo_lib
        (demo_world (mk_datetime 2026 2 27 9 1 0 (Some 0)))
        (DecisionEngine [] False) (demo_raw ''2026-02-27T09:00:00Z'')))
       = Inr (''LATER'', ''LLM_DECISION'')" by code_simp
  note items = input_event_drops_internal_fields[OF valid outcome_returned[OF oc]]
  show ?thesis
    by (rule conjI[OF valid conjI[OF oc items]])
qed

lemma process_event_appends_one_record:
  assumes "validate_event L W raw = Inr ev"
    and "fst (process_event L W st raw) = Inr out"
  shows "history (snd (process_event L W st raw)) (user_id ev)
           = deque_append HISTORY_BUFFER_SIZE (history st (user_id ev))
               \<lparr>h_event_id = event_id ev, h_event_type = event_type ev, h_source = source ev,
                h_decision = o_decision out, h_explanation_code = o_explanation_code out,
                h_dedupe_key = dedupe_key ev, h_normalized_text = event_text_of L ev,
                h_parsed_timestamp = parsed_timestamp ev, h_timestamp = timestamp ev\<rparr>
         \<and> (\<forall>uid. uid \<noteq> user_id ev
               \<longrightarrow> history (snd (process_event L W st raw)) uid = history st uid)"
proof -
  obtain st' where run: "process_event L W st raw = (Inr out, st')"
    using assms(2) by (cases "process_event L W st raw") simp
  from process_event_returned[OF assms(1) run]
  have "history st' = record_history L (history st) ev (o_decision out) (o_explanation_code out)"
    by simp
  with run show ?thesis
    by (simp add: record_history_def add_def)
qed

lemma deque_append_last:
  "0 < n \<Longrightarrow> deque_append n xs x \<noteq> [] \<and> last (deque_append n xs x) = x"
  by (simp add: deque_append_def Let_def)

lemma process_event_invalid_keeps_engine:
  "validate_event L W raw = Inl e \<Longrightarrow> snd (process_event L W st raw) = st"
  by (simp add: process_event_def)

lemma process_event_raise_keeps_history:
  assumes "fst (process_event L W st raw) = Inl err"
  shows "history (snd (process_event L W st raw)) = history st"
  using assms
  by (auto simp: process_event_def Let_def split: sum.splits dup_result.splits prod.splits)

text \<open>
  Claim C6. The timestamp \<^verbatim>\<open>"2026-02-27T09:00:00"\<close> passes validation and parses to a
  naive datetime. The first event of user \<^verbatim>\<open>u1\<close> that carries it is recorded. On the next
  validated event of that user \<^verbatim>\<open>get_recent\<close> compares the naive timestamp with the aware
  cutoff, \<^verbatim>\<open>TypeError\<close> escapes \<^verbatim>\<open>process_event\<close>, and no record is appended: the history
  still has one entry. (\<open>process_event_appends_one_record\<close> is the claim for the calls that
  return.)
\<close>

theorem naive_timestamp_second_event_raises:
  "validate_event demo_lib (demo_world (mk_datetime 2026 2 27 9 1 0 (Some 0)))
      (demo_raw ''2026-02-27T09:00:00'')
     = Inr (demo_event (mk_datetime 2026 2 27 9 0 0 None))
   \<and> outcome (fst (process_event demo_lib (demo_world (mk_datetime 2026 2 27 9 1 0 (Some 0)))
        (DecisionEngine [] False) (demo_raw ''2026-02-27T09:00:00'')))
       = Inr (''LATER'', ''LLM_DECISION'')
   \<and> length (history (snd (process_event demo_lib
        (demo_world (mk_datetime 2026 2 27 9 1 0 (Some 0)))
        (DecisionEngine [] False) (demo_raw ''2026-02-27T09:00:00''))) ''u1'') = 1
   \<and> fst (process_event demo_lib (demo_world (mk_datetime 2026 2 27 9 1 0 (Some 0)))
        (snd (process_event demo_lib (demo_world (mk_datetime 2026 2 27 9 1 0 (Some 0)))
           (DecisionEngine [] False) (demo_raw ''2026-02-27T09:00:00'')))
        (demo_raw ''2026-02-27T09:00:00''))
       = Inl TypeError
   \<and> length (history (snd (process_event demo_lib
        (demo_world (mk_datetime 2026 2 27 9 1 0 (Some 0)))
        (snd (process_event demo_lib (demo_world (mk_datetime 2026 2 27 9 1 0 (Some 0)))
           (DecisionEngine [] False) (demo_raw ''2026-02-27T09:00:00'')))
        (demo_raw ''2026-02-27T09:00:00''))) ''u1'') = 1"
  by code_simp

subsection \<open>Similarity\<close>

lemma TEXT_SIMILARITY_THRESHOLD_value:
  "TEXT_SIMILARITY_THRESHOLD = 8106479329266893 / 9007199254740992"
  unfolding TEXT_SIMILARITY_THRESHOLD_def by code_simp

subsection \<open>Replaying an event\<close>

text \<open>
  The window filter of \<^verbatim>\<open>get_recent\<close> compares stored timestamps with an aware cutoff; it
  returns only when every stored timestamp is aware.
\<close>

lemma dt_ge_True_aware:
  "dt_ge ts cutoff = Inr b \<Longrightarrow> utcoffset cutoff \<noteq> None \<Longrightarrow> utcoffset ts \<noteq> None"
  by (auto simp: dt_ge_def dt_le_def split: option.splits)

lemma filter_recent_Inr_aware:
  assumes "filter_recent cutoff rs = Inr xs" "utcoffset cutoff \<noteq> None"
  shows "\<forall>r \<in> set rs. utcoffset (h_parsed_timestamp r) \<noteq> None"
  using assms
proof (induction rs arbitrary: xs)
  case Nil
  then show ?case by simp
next
  case (Cons r rs)
  from Cons.prems(1) obtain keep rest where
    keep: "dt_ge (h_parsed_timestamp r) cutoff = Inr keep"
    and rest: "filter_recent cutoff rs = Inr rest"
    by (auto simp: bindE_def split: sum.splits)
  from keep Cons.prems(2) have "utcoffset (h_parsed_timestamp r) \<noteq> None"
    by (rule dt_ge_True_aware)
  moreover from Cons.IH[OF rest Cons.prems(2)]
  have "\<forall>r \<in> set rs. utcoffset (h_parsed_timestamp r) \<noteq> None" .
  ultimately show ?case by simp
qed

lemma filter_recent_aware:
  assumes "utcoffset cutoff \<noteq> None"
    and "\<forall>r \<in> set rs. utcoffset (h_parsed_timestamp r) \<noteq> None"
  shows "filter_recent cutoff rs
           = Inr (filter (\<lambda>r. dt_ge (h_parsed_timestamp r) cutoff = Inr True) rs)"
  using assms(2)
proof (induction rs)
  case Nil
  then show ?case by simp
next
  case (Cons r rs)
  from Cons.prems assms(1) obtain b where "dt_ge (h_parsed_timestamp r) cutoff = Inr b"
    by (auto simp: dt_ge_def dt_le_def split: option.splits)
  with Cons show ?case
    by (simp add: bindE_def)
qed

lemma utcoffset_utc_now: "utcoffset (utc_now W s) = Some 0"
  by (simp add: utc_now_def)

lemma get_recent_Inr_aware:
  assumes "get_recent (utc_now W s) store uid w = Inr xs"
  shows "\<forall>r \<in> set (store uid). utcoffset (h_parsed_timestamp r) \<noteq> None"
proof -
  from assms obtain cutoff where
    c: "dt_add (utc_now W s) (- (w * US_PER_MINUTE)) = Inr cutoff"
    and f: "filter_recent cutoff (store uid) = Inr xs"
    by (auto simp: get_recent_def bindE_def split: sum.splits)
  from c have "utcoffset cutoff \<noteq> None"
    by (auto simp: dt_add_def Let_def utcoffset_utc_now split: if_splits)
  with f show ?thesis by (rule filter_recent_Inr_aware)
qed

lemma get_recent_in_window:
  assumes "in_dedupe_window W s ts"
    and "\<forall>r \<in> set (store uid). utcoffset (h_parsed_timestamp r) \<noteq> None"
  shows "\<exists>cutoff. dt_ge ts cutoff = Inr True
           \<and> get_recent (utc_now W s) store uid DEDUPE_WINDOW_MINUTES
               = Inr (filter (\<lambda>r. dt_ge (h_parsed_timestamp r) cutoff = Inr True) (store uid))"
proof -
  from assms(1) obtain cutoff where
    c: "dt_add (utc_now W s) (- (DEDUPE_WINDOW_MINUTES * US_PER_MINUTE)) = Inr cutoff"
    and ge: "dt_ge ts cutoff = Inr True"
    by (auto simp: in_dedupe_window_def split: sum.splits)
  from c have "utcoffset cutoff \<noteq> None"
    by (auto simp: dt_add_def Let_def utcoffset_utc_now split: if_splits)
  then have "filter_recent cutoff (store uid)
           = Inr (filter (\<lambda>r. dt_ge (h_parsed_timestamp r) cutoff = Inr True) (store uid))"
    using assms(2) by (rule filter_recent_aware)
  with c ge show ?thesis
    by (auto simp: get_recent_def bindE_def)
qed

lemma in_dedupe_window_aware:
  "in_dedupe_window W s ts \<Longrightarrow> utcoffset ts \<noteq> None"
  by (auto simp: in_dedupe_window_def dt_add_def Let_def utcoffset_utc_now
           split: sum.splits if_splits dest!: dt_ge_True_aware)

lemma check_Inr_aware:
  assumes "check L W store ev = Inr (Duplicate t m)"
  shows "\<forall>r \<in> set (store (user_id ev)). utcoffset (h_parsed_timestamp r) \<noteq> None"
proof (cases "truthy (dedupe_key ev)")
  case True
  with assms obtain xs where
    "get_recent (utc_now W DedupeKeyRead) store (user_id ev) DEDUPE_WINDOW_MINUTES = Inr xs"
    by (auto simp: check_def get_dedupe_key_entries_def bindE_def split: sum.splits)
  then show ?thesis by (rule get_recent_Inr_aware)
next
  case False
  with assms obtain xs where
    "get_recent (utc_now W TextRead) store (user_id ev) DEDUPE_WINDOW_MINUTES = Inr xs"
    by (auto simp: check_def get_text_entries_def bindE_def Let_def
             split: sum.splits if_splits option.splits)
  then show ?thesis by (rule get_recent_Inr_aware)
qed

lemma decide_Inr_aware:
  assumes "decide W st ev r = Inr res"
  shows "\<forall>r \<in> set (history st (user_id ev)). utcoffset (h_parsed_timestamp r) \<noteq> None"
proof -
  from assms obtain xs where
    "get_recent (utc_now W FrequencyRead) (history st) (user_id ev) FREQUENCY_WINDOW_MINUTES
       = Inr xs"
    by (auto simp: decide_def count_in_window_def bindE_def Let_def split: sum.splits)
  then show ?thesis by (rule get_recent_Inr_aware)
qed

lemma validate_event_other_world:
  "validate_event L W' raw
     = map_sum id (event_id_update (\<lambda>_. case r_event_id raw of Some i \<Rightarrow> i | None \<Rightarrow> uuid4 W'))
         (validate_event L W raw)"
proof (cases "first_missing (REQUIRED_FIELDS raw)")
  case (Some field)
  then show ?thesis by (simp add: validate_event_def)
next
  case None
  note required = this
  show ?thesis
  proof (cases "fromisoformat L (replace_Z (the (r_timestamp raw)))")
    case None
    with required show ?thesis by (simp add: validate_event_def)
  next
    case (Some ts)
    note parsed = this
    show ?thesis
    proof (cases "fromisoformat L (replace_Z (the (r_expires_at raw)))")
      case None
      with required parsed show ?thesis by (simp add: validate_event_def Let_def)
    next
      case (Some expiry)
      with required parsed show ?thesis by (simp add: validate_event_def Let_def)
    qed
  qed
qed

lemma event_text_of_event_id:
  "event_text_of L (ev\<lparr>event_id := i\<rparr>) = event_text_of L ev"
  by (simp add: event_text_of_def)

lemma check_event_id:
  "check L W store (ev\<lparr>event_id := i\<rparr>) = check L W store ev"
  by (simp add: check_def Let_def event_text_of_event_id cong: if_cong)

lemma record_history_at_user:
  "record_history L store ev d c (user_id ev)
     = deque_append HISTORY_BUFFER_SIZE (store (user_id ev))
         \<lparr>h_event_id = event_id ev, h_event_type = event_type ev, h_source = source ev,
          h_decision = d, h_explanation_code = c, h_dedupe_key = dedupe_key ev,
          h_normalized_text = event_text_of L ev,
          h_parsed_timestamp = parsed_timestamp ev, h_timestamp = timestamp ev\<rparr>"
  by (simp add: record_history_def add_def)

lemma set_deque_append:
  "0 < n \<Longrightarrow> x \<in> set (deque_append n xs x)"
  "set (deque_append n xs x) \<subseteq> insert x (set xs)"
proof -
  show "0 < n \<Longrightarrow> x \<in> set (deque_append n xs x)"
    by (simp add: deque_append_def Let_def)
  show "set (deque_append n xs x) \<subseteq> insert x (set xs)"
    using set_drop_subset[of "length (xs @ [x]) - n" "xs @ [x]"]
    by (auto simp: deque_append_def Let_def)
qed

lemma threshold_le_one: "TEXT_SIMILARITY_THRESHOLD \<le> 1"
  by (simp add: TEXT_SIMILARITY_THRESHOLD_value)

lemma levenshtein_ratio_same: "levenshtein_ratio s s = 1"
  by (simp add: levenshtein_ratio_def)

lemma process_event_first_history:
  assumes "validate_event L W raw = Inr ev"
    and "fst (process_event L W st raw) = Inr out"
  shows "\<exists>d c. history (snd (process_event L W st raw)) (user_id ev)
             = deque_append HISTORY_BUFFER_SIZE (history st (user_id ev))
                 \<lparr>h_event_id = event_id ev, h_event_type = event_type ev, h_source = source ev,
                  h_decision = d, h_explanation_code = c, h_dedupe_key = dedupe_key ev,
                  h_normalized_text = event_text_of L ev,
                  h_parsed_timestamp = parsed_timestamp ev, h_timestamp = timestamp ev\<rparr>"
    and "\<forall>r \<in> set (history st (user_id ev)). utcoffset (h_parsed_timestamp r) \<noteq> None"
proof -
  obtain st' where run: "process_event L W st raw = (Inr out, st')"
    using assms(2) by (cases "process_event L W st raw") simp
  note ret = process_event_returned[OF assms(1) run]
  from ret have "history st' = record_history L (history st) ev (o_decision out)
                                 (o_explanation_code out)"
    by simp
  with run show "\<exists>d c. history (snd (process_event L W st raw)) (user_id ev)
             = deque_append HISTORY_BUFFER_SIZE (history st (user_id ev))
                 \<lparr>h_event_id = event_id ev, h_event_type = event_type ev, h_source = source ev,
                  h_decision = d, h_explanation_code = c, h_dedupe_key = dedupe_key ev,
                  h_normalized_text = event_text_of L ev,
                  h_parsed_timestamp = parsed_timestamp ev, h_timestamp = timestamp ev\<rparr>"
    by (auto simp: record_history_at_user)
  from ret show "\<forall>r \<in> set (history st (user_id ev)). utcoffset (h_parsed_timestamp r) \<noteq> None"
  proof (elim conjE disjE exE)
    fix matched_id
    assume "check L W (history st) ev = Inr (Duplicate (o_explanation_code out) matched_id)"
    then show ?thesis by (rule check_Inr_aware)
  next
    fix v
    assume "decide W (st\<lparr>llm := snd (classify L (llm st) ev)\<rparr>) ev
              (fst (classify L (llm st) ev)) = Inr (v, o_scheduled_time out)"
    from decide_Inr_aware[OF this] show ?thesis by simp
  qed
qed

lemma check_finds_own_record:
  assumes own: "entry0 \<in> set (store (user_id ev))"
    and same_key: "h_dedupe_key entry0 = dedupe_key ev"
    and same_text: "h_normalized_text entry0 = event_text_of L ev"
    and same_ts: "h_parsed_timestamp entry0 = parsed_timestamp ev"
    and aware: "\<forall>r \<in> set (store (user_id ev)). utcoffset (h_parsed_timestamp r) \<noteq> None"
    and window: "in_dedupe_window W (if truthy (dedupe_key ev) then DedupeKeyRead else TextRead)
                   (parsed_timestamp ev)"
    and nonempty: "\<not> truthy (dedupe_key ev) \<longrightarrow> event_text_of L ev \<noteq> []"
  shows "\<exists>m. check L W store ev
           = Inr (Duplicate (if truthy (dedupe_key ev) then ''DUPLICATE_DEDUPE_KEY''
                             else ''DUPLICATE_TEXT_SIMILAR'') m)"
proof (cases "truthy (dedupe_key ev)")
  case True
  then obtain k where k: "dedupe_key ev = Some k"
    by (cases "dedupe_key ev") (auto simp: truthy_def)
  from window True have "in_dedupe_window W DedupeKeyRead (parsed_timestamp ev)" by simp
  from get_recent_in_window[where store=store and uid="user_id ev", OF this aware] obtain cutoff where
    ge: "dt_ge (parsed_timestamp ev) cutoff = Inr True"
    and recent: "get_recent (utc_now W DedupeKeyRead) store (user_id ev) DEDUPE_WINDOW_MINUTES
               = Inr (filter (\<lambda>r. dt_ge (h_parsed_timestamp r) cutoff = Inr True)
                        (store (user_id ev)))"
    by blast
  let ?matches = "filter (\<lambda>r. h_dedupe_key r = Some k)
                    (filter (\<lambda>r. dt_ge (h_parsed_timestamp r) cutoff = Inr True)
                       (store (user_id ev)))"
  from own same_key same_ts ge k have "entry0 \<in> set ?matches" by simp
  then have "?matches \<noteq> []" by (metis empty_iff empty_set)
  with True k recent show ?thesis
    by (simp add: check_def get_dedupe_key_entries_def bindE_def)
next
  case False
  with nonempty have has_text: "event_text_of L ev \<noteq> []" by simp
  from window False have "in_dedupe_window W TextRead (parsed_timestamp ev)" by simp
  from get_recent_in_window[where store=store and uid="user_id ev", OF this aware] obtain cutoff where
    ge: "dt_ge (parsed_timestamp ev) cutoff = Inr True"
    and recent: "get_recent (utc_now W TextRead) store (user_id ev) DEDUPE_WINDOW_MINUTES
               = Inr (filter (\<lambda>r. dt_ge (h_parsed_timestamp r) cutoff = Inr True)
                        (store (user_id ev)))"
    by blast
  let ?entries = "filter (\<lambda>r. h_normalized_text r \<noteq> [])
                    (filter (\<lambda>r. dt_ge (h_parsed_timestamp r) cutoff = Inr True)
                       (store (user_id ev)))"
  let ?similar = "\<lambda>entry. TEXT_SIMILARITY_THRESHOLD
                    \<le> levenshtein_ratio (event_text_of L ev) (h_normalized_text entry)"
  from own same_text same_ts ge has_text have "entry0 \<in> set ?entries" by simp
  moreover have "?similar entry0"
    by (simp add: same_text levenshtein_ratio_same threshold_le_one)
  ultimately have "find ?similar ?entries \<noteq> None"
    by (auto simp: find_None_iff)
  then obtain entry where "find ?similar ?entries = Some entry" by blast
  with False has_text recent show ?thesis
    by (simp add: check_def get_text_entries_def bindE_def Let_def)
qed

lemma process_event_duplicate:
  assumes "validate_event L W raw = Inr ev"
    and "check L W (history st) ev = Inr (Duplicate t m)"
  shows "outcome (fst (process_event L W st raw)) = Inr (''NEVER'', t)"
  using assms
  by (simp add: process_event_def outcome_def Let_def get_output_record_fields)

text \<open>
  Claim C2, with the conditions the code needs. Let an event pass validation and a first call
  of \<^verbatim>\<open>process_event\<close> return a record. Let the event's timestamp lie within the
  duplicate window that the second call computes from the wall clock (\<^verbatim>\<open>utcnow()\<close> minus
  \<^verbatim>\<open>DEDUPE_WINDOW_MINUTES\<close>), and, when the event has no dedupe key, let its normalized
  title and message be non-empty. Then processing the same input again on the resulting
  engine gives decision \<^verbatim>\<open>NEVER\<close>, with code \<^verbatim>\<open>DUPLICATE_DEDUPE_KEY\<close> when the event
  carries a dedupe key and \<^verbatim>\<open>DUPLICATE_TEXT_SIMILAR\<close> otherwise.
\<close>

theorem replay_is_duplicate:
  assumes valid: "validate_event L W1 raw = Inr ev"
    and first: "fst (process_event L W1 st raw) = Inr out1"
    and window: "in_dedupe_window W2 (if truthy (dedupe_key ev) then DedupeKeyRead else TextRead)
                   (parsed_timestamp ev)"
    and nonempty: "\<not> truthy (dedupe_key ev) \<longrightarrow> event_text_of L ev \<noteq> []"
  shows "outcome (fst (process_event L W2 (snd (process_event L W1 st raw)) raw))
           = Inr (''NEVER'', if truthy (dedupe_key ev) then ''DUPLICATE_DEDUPE_KEY''
                             else ''DUPLICATE_TEXT_SIMILAR'')"
proof -
  let ?st1 = "snd (process_event L W1 st raw)"
  let ?i = "case r_event_id raw of Some i \<Rightarrow> i | None \<Rightarrow> uuid4 W2"
  let ?ev2 = "ev\<lparr>event_id := ?i\<rparr>"
  have valid2: "validate_event L W2 raw = Inr ?ev2"
    using validate_event_other_world[of L W2 raw W1] valid by simp
  from process_event_first_history[OF valid first] obtain d c where
    hist: "history ?st1 (user_id ev)
             = deque_append HISTORY_BUFFER_SIZE (history st (user_id ev))
                 \<lparr>h_event_id = event_id ev, h_event_type = event_type ev, h_source = source ev,
                  h_decision = d, h_explanation_code = c, h_dedupe_key = dedupe_key ev,
                  h_normalized_text = event_text_of L ev,
                  h_parsed_timestamp = parsed_timestamp ev, h_timestamp = timestamp ev\<rparr>"
    and old: "\<forall>r \<in> set (history st (user_id ev)). utcoffset (h_parsed_timestamp r) \<noteq> None"
    by blast
  let ?rec = "\<lparr>h_event_id = event_id ev, h_event_type = event_type ev, h_source = source ev,
                  h_decision = d, h_explanation_code = c, h_dedupe_key = dedupe_key ev,
                  h_normalized_text = event_text_of L ev,
                  h_parsed_timestamp = parsed_timestamp ev, h_timestamp = timestamp ev\<rparr>"
  have own: "?rec \<in> set (history ?st1 (user_id ev))"
    by (simp add: hist set_deque_append(1) HISTORY_BUFFER_SIZE_def)
  have "utcoffset (parsed_timestamp ev) \<noteq> None"
    using window by (rule in_dedupe_window_aware)
  with old have aware: "\<forall>r \<in> set (history ?st1 (user_id ev)).
                          utcoffset (h_parsed_timestamp r) \<noteq> None"
    using set_deque_append(2)[of HISTORY_BUFFER_SIZE "history st (user_id ev)" ?rec]
    by (auto simp: hist)
  from check_finds_own_record[of ?rec "history ?st1" ev L W2, OF own _ _ _ aware window nonempty]
  obtain m where "check L W2 (history ?st1) ev
           = Inr (Duplicate (if truthy (dedupe_key ev) then ''DUPLICATE_DEDUPE_KEY''
                             else ''DUPLICATE_TEXT_SIMILAR'') m)"
    by auto
  then have "check L W2 (history ?st1) ?ev2
           = Inr (Duplicate (if truthy (dedupe_key ev) then ''DUPLICATE_DEDUPE_KEY''
                             else ''DUPLICATE_TEXT_SIMILAR'') m)"
    by (simp add: check_event_id)
  from process_event_duplicate[OF valid2 this] show ?thesis .
qed

theorem replay_is_duplicate_witness:
  "(validate_event demo_lib (demo_world (mk_datetime 2026 2 27 9 1 0 (Some 0)))
      (demo_raw ''2026-02-27T09:00:00Z'')
     = Inr (demo_event (mk_datetime 2026 2 27 9 0 0 (Some 0)))
   \<and> outcome (fst (process_event demo_lib (demo_world (mk_datetime 2026 2 27 9 1 0 (Some 0)))
        (DecisionEngine [] False) (demo_raw ''2026-02-27T09:00:00Z'')))
       = Inr (''LATER'', ''LLM_DECISION'')
   \<and> in_dedupe_window (demo_world (mk_datetime 2026 2 27 9 5 0 (Some 0)))
        (if truthy (dedupe_key (demo_event (mk_datetime 2026 2 27 9 0 0 (Some 0))))
         then DedupeKeyRead else TextRead)
        (parsed_timestamp (demo_event (mk_datetime 2026 2 27 9 0 0 (Some 0))))
   \<and> event_text_of demo_lib (demo_event (mk_datetime 2026 2 27 9 0 0 (Some 0))) \<noteq> []
   \<and> \<not> truthy (dedupe_key (demo_event (mk_datetime 2026 2 27 9 0 0 (Some 0))))
   \<and> outcome (fst (process_event demo_lib (demo_world (mk_datetime 2026 2 27 9 5 0 (Some 0)))
        (snd (process_event demo_lib (demo_world (mk_datetime 2026 2 27 9 1 0 (Some 0)))
           (DecisionEngine [] False) (demo_raw ''2026-02-27T09:00:00Z'')))
        (demo_raw ''2026-02-27T09:00:00Z'')))
       = Inr (''NEVER'',
              if truthy (dedupe_key (demo_event (mk_datetime 2026 2 27 9 0 0 (Some 0))))
              then ''DUPLICATE_DEDUPE_KEY'' else ''DUPLICATE_TEXT_SIMILAR''))
   \<and> (validate_event demo_lib (demo_world (mk_datetime 2026 2 27 9 1 0 (Some 0)))
      (demo_raw_keyed ''2026-02-27T09:00:00Z'')
     = Inr (demo_event_keyed (mk_datetime 2026 2 27 9 0 0 (Some 0)))
   \<and> outcome (fst (process_event demo_lib (demo_world (mk_datetime 2026 2 27 9 1 0 (Some 0)))
        (DecisionEngine [] False) (demo_raw_keyed ''2026-02-27T09:00:00Z'')))
       = Inr (''LATER'', ''LLM_DECISION'')
   \<and> in_dedupe_window (demo_world (mk_datetime 2026 2 27 9 5 0 (Some 0)))
        (if truthy (dedupe_key (demo_event_keyed (mk_datetime 2026 2 27 9 0 0 (Some 0))))
         then DedupeKeyRead else TextRead)
        (parsed_timestamp (demo_event_keyed (mk_datetime 2026 2 27 9 0 0 (Some 0))))
   \<and> truthy (dedupe_key (demo_event_keyed (mk_datetime 2026 2 27 9 0 0 (Some 0))))
   \<and> outcome (fst (process_event demo_lib (demo_world (mk_datetime 2026 2 27 9 5 0 (Some 0)))
        (snd (process_event demo_lib (demo_world (mk_datetime 2026 2 27 9 1 0 (Some 0)))
           (DecisionEngine [] False) (demo_raw_keyed ''2026-02-27T09:00:00Z'')))
        (demo_raw_keyed ''2026-02-27T09:00:00Z'')))
       = Inr (''NEVER'',
              if truthy (dedupe_key (demo_event_keyed (mk_datetime 2026 2 27 9 0 0 (Some 0))))
              then ''DUPLICATE_DEDUPE_KEY'' else ''DUPLICATE_TEXT_SIMILAR''))"
proof -
  have valid: "validate_event demo_lib (demo_world (mk_datetime 2026 2 27 9 1 0 (Some 0)))
      (demo_raw ''2026-02-27T09:00:00Z'')
     = Inr (demo_event (mk_datetime 2026 2 27 9 0 0 (Some 0)))" by code_simp
  have oc: "outcome (fst (process_event demo_lib
        (demo_world (mk_datetime 2026 2 27 9 1 0 (Some 0)))
        (DecisionEngine [] False) (demo_raw ''2026-02-27T09:00:00Z'')))
       = Inr (''LATER'', ''LLM_DECISION'')" by code_simp
  have window: "in_dedupe_window (demo_world (mk_datetime 2026 2 27 9 5 0 (Some 0)))
        (if truthy (dedupe_key (demo_event (mk_datetime 2026 2 27 9 0 0 (Some 0))))
         then DedupeKeyRead else TextRead)
        (parsed_timestamp (demo_event (mk_datetime 2026 2 27 9 0 0 (Some 0))))" by code_simp
  have has_text: "event_text_of demo_lib (demo_event (mk_datetime 2026 2 27 9 0 0 (Some 0))) \<noteq> []"
    by code_simp
  then have nonempty: "\<not> truthy (dedupe_key (demo_event (mk_datetime 2026 2 27 9 0 0 (Some 0))))
        \<longrightarrow> event_text_of demo_lib (demo_event (mk_datetime 2026 2 27 9 0 0 (Some 0))) \<noteq> []"
    by blast
  have nokey: "\<not> truthy (dedupe_key (demo_event (mk_datetime 2026 2 27 9 0 0 (Some 0))))"
    by code_simp
  note dup = replay_is_duplicate[OF valid outcome_returned[OF oc] window nonempty]
  have kvalid: "validate_event demo_lib (demo_world (mk_datetime 2026 2 27 9 1 0 (Some 0)))
      (demo_raw_keyed ''2026-02-27T09:00:00Z'')
     = Inr (demo_event_keyed (mk_datetime 2026 2 27 9 0 0 (Some 0)))" by code_simp
  have koc: "outcome (fst (process_event demo_lib
        (demo_world (mk_datetime 2026 2 27 9 1 0 (Some 0)))
        (DecisionEngine [] False) (demo_raw_keyed ''2026-02-27T09:00:00Z'')))
       = Inr (''LATER'', ''LLM_DECISION'')" by code_simp
  have kwindow: "in_dedupe_window (demo_world (mk_datetime 2026 2 27 9 5 0 (Some 0)))
        (if truthy (dedupe_key (demo_event_keyed (mk_datetime 2026 2 27 9 0 0 (Some 0))))
         then DedupeKeyRead else TextRead)
        (parsed_timestamp (demo_event_keyed (mk_datetime 2026 2 27 9 0 0 (Some 0))))" by code_simp
  have key: "truthy (dedupe_key (demo_event_keyed (mk_datetime 2026 2 27 9 0 0 (Some 0))))"
    by code_simp
  then have knonempty: "\<not> truthy (dedupe_key (demo_event_keyed (mk_datetime 2026 2 27 9 0 0 (Some 0))))
        \<longrightarrow> event_text_of demo_lib (demo_event_keyed (mk_datetime 2026 2 27 9 0 0 (Some 0))) \<noteq> []"
    by blast
  note kdup = replay_is_duplicate[OF kvalid outcome_returned[OF koc] kwindow knonempty]
  show ?thesis
    by (rule conjI[OF
          conjI[OF valid conjI[OF oc conjI[OF window conjI[OF has_text conjI[OF nokey dup]]]]]
          conjI[OF kvalid conjI[OF koc conjI[OF kwindow conjI[OF key kdup]]]]])
qed

text \<open>
  Claim C2 as stated fails: the duplicate window is measured from the wall clock, not from
  the previous call. An event stamped 2026-02-27T09:00:00Z that is processed twice in a row
  on 2026-11-04 is validated and decided both times, and the second call is not a duplicate.
\<close>

theorem stale_replay_is_not_duplicate:
  "validate_event demo_lib (demo_world (mk_datetime 2026 11 4 12 0 0 (Some 0)))
      (demo_raw ''2026-02-27T09:00:00Z'')
     = Inr (demo_event (mk_datetime 2026 2 27 9 0 0 (Some 0)))
   \<and> outcome (fst (process_event demo_lib (demo_world (mk_datetime 2026 11 4 12 0 0 (Some 0)))
        (DecisionEngine [] False) (demo_raw ''2026-02-27T09:00:00Z'')))
       = Inr (''LATER'', ''LLM_DECISION'')
   \<and> outcome (fst (process_event demo_lib (demo_world (mk_datetime 2026 11 4 12 0 0 (Some 0)))
        (snd (process_event demo_lib (demo_world (mk_datetime 2026 11 4 12 0 0 (Some 0)))
           (DecisionEngine [] False) (demo_raw ''2026-02-27T09:00:00Z'')))
        (demo_raw ''2026-02-27T09:00:00Z'')))
       = Inr (''LATER'', ''LLM_DECISION'')"
  by code_simp

subsection \<open>Two runs on the same inputs\<close>

lemma utc_now_same_clock: "now W' = now W \<Longrightarrow> utc_now W' s = utc_now W s"
  by (simp add: utc_now_def)

lemma check_same_clock:
  assumes "now W' = now W"
  shows "check L W' store ev = check L W store ev"
  by (simp add: check_def Let_def utc_now_same_clock[OF assms] cong: if_cong)

lemma matches_rule_event_id:
  "matches_rule (ev\<lparr>event_id := i\<rparr>) = matches_rule ev"
  by (rule ext) (simp add: matches_rule_def Let_def split: option.splits)

lemma match_rules_event_id:
  "match_rules rs (ev\<lparr>event_id := i\<rparr>) = match_rules rs ev"
  by (simp add: match_rules_def matches_rule_event_id)

lemma apply_rule_same:
  assumes "now W' = now W"
  shows "apply_rule W' store (ev\<lparr>event_id := i\<rparr>) k m cur res
           = apply_rule W store ev k m cur res"
  by (simp add: apply_rule_def Let_def utc_now_same_clock[OF assms] split: option.splits)

lemma apply_loop_same:
  assumes "now W' = now W"
  shows "apply_loop W' store (ev\<lparr>event_id := i\<rparr>) k ms cur res
           = apply_loop W store ev k ms cur res"
  by (induction ms arbitrary: k cur res)
     (simp_all add: apply_rule_same[OF assms] split: sum.splits prod.splits)

lemma step4_rules_same:
  assumes "now W' = now W" "history st' = history st" "rules st' = rules st"
  shows "step4_rules W' st' (ev\<lparr>event_id := i\<rparr>) v = step4_rules W st ev v"
  using assms(2,3)
  by (simp add: step4_rules_def apply_actions_def match_rules_event_id
        apply_loop_same[OF assms(1)] Let_def cong: if_cong)

lemma step5_frequency_event_id:
  "step5_frequency (ev\<lparr>event_id := i\<rparr>) n v = step5_frequency ev n v"
  by (simp add: step5_frequency_def cong: if_cong)

lemma step6_noise_same:
  assumes "now W' = now W" "history st' = history st"
  shows "step6_noise W' st' (ev\<lparr>event_id := i\<rparr>) v = step6_noise W st ev v"
  using assms(2) by (simp add: step6_noise_def utc_now_same_clock[OF assms(1)] cong: if_cong)

lemma compute_scheduled_time_event_id:
  "compute_scheduled_time (ev\<lparr>event_id := i\<rparr>) c n = compute_scheduled_time ev c n"
  by (simp add: compute_scheduled_time_def Let_def cong: if_cong)

lemma step7_schedule_event_id:
  "step7_schedule (ev\<lparr>event_id := i\<rparr>) n v = step7_schedule ev n v"
  by (simp add: step7_schedule_def compute_scheduled_time_event_id cong: if_cong)

lemma decide_same:
  assumes "now W' = now W" "history st' = history st" "rules st' = rules st"
  shows "decide W' st' (ev\<lparr>event_id := i\<rparr>) r = decide W st ev r"
  using assms(2)
  by (simp add: decide_def Let_def step4_rules_same[OF assms] step5_frequency_event_id
        step6_noise_same[OF assms(1,2)] step7_schedule_event_id utc_now_same_clock[OF assms(1)])

lemma boosted_scores_event_id:
  "boosted_scores L (ev\<lparr>event_id := i\<rparr>) = boosted_scores L ev"
  by (simp add: boosted_scores_def)

lemma llm_classify_event_id:
  "llm_classify L (ev\<lparr>event_id := i\<rparr>) = llm_classify L ev"
  by (cases "boosted_scores L ev") (simp add: llm_classify_def boosted_scores_event_id)

lemma fallback_event_id:
  "fallback (ev\<lparr>event_id := i\<rparr>) reason_text = fallback ev reason_text"
  by (simp add: fallback_def Let_def split: option.splits)

lemma classify_same:
  assumes "simulate_failure c' = simulate_failure c"
  shows "fst (classify L c' (ev\<lparr>event_id := i\<rparr>)) = fst (classify L c ev)"
  using assms
  by (simp add: classify_def Let_def llm_classify_event_id fallback_event_id)

lemma process_event_outcome:
  assumes "validate_event L W raw = Inr ev"
  shows "outcome (fst (process_event L W st raw))
           = (case check L W (history st) ev of
                Inl err \<Rightarrow> Inl err
              | Inr (Duplicate t m) \<Rightarrow> Inr (''NEVER'', t)
              | Inr NotDuplicate \<Rightarrow>
                  (case decide W (st\<lparr>llm := snd (classify L (llm st) ev)\<rparr>) ev
                          (fst (classify L (llm st) ev)) of
                     Inl err \<Rightarrow> Inl err
                   | Inr (v, sched) \<Rightarrow> Inr (current_decision v, explanation_code v)))"
  using assms
  by (simp add: process_event_def outcome_def Let_def get_output_record_fields
           split: sum.splits dup_result.splits prod.splits)

text \<open>
  Claim C3, with the inputs the code reads. Two calls of \<^verbatim>\<open>process_event\<close> on the same
  raw event, with the same history store, the same rules, the same setting of the
  classifier's failure switch and the same wall-clock readings, agree on whether they raise
  and, when they return, on the decision and the explanation code. The logs, the
  classifier's call counter and the generated event id may differ.
\<close>

theorem same_inputs_same_outcome:
  assumes "history st' = history st"
    and "rules st' = rules st"
    and "simulate_failure (llm st') = simulate_failure (llm st)"
    and "now W' = now W"
  shows "outcome (fst (process_event L W' st' raw)) = outcome (fst (process_event L W st raw))"
proof (cases "validate_event L W raw")
  case (Inl e)
  then have "validate_event L W' raw = Inl e"
    using validate_event_other_world[of L W' raw W] by simp
  with Inl show ?thesis by (simp add: process_event_def outcome_def)
next
  case (Inr ev)
  let ?i = "case r_event_id raw of Some i \<Rightarrow> i | None \<Rightarrow> uuid4 W'"
  have valid': "validate_event L W' raw = Inr (ev\<lparr>event_id := ?i\<rparr>)"
    using validate_event_other_world[of L W' raw W] Inr by simp
  have c: "check L W' (history st') (ev\<lparr>event_id := ?i\<rparr>) = check L W (history st) ev"
    by (simp add: check_event_id check_same_clock[OF assms(4)] assms(1))
  have r: "fst (classify L (llm st') (ev\<lparr>event_id := ?i\<rparr>)) = fst (classify L (llm st) ev)"
    by (rule classify_same[OF assms(3)])
  have d: "decide W' (st'\<lparr>llm := x\<rparr>) (ev\<lparr>event_id := ?i\<rparr>) res
             = decide W (st\<lparr>llm := snd (classify L (llm st) ev)\<rparr>) ev res" for x res
    by (rule decide_same) (simp_all add: assms)
  show ?thesis
    unfolding process_event_outcome[OF Inr] process_event_outcome[OF valid'] c r d ..
qed

lemma engine_frame:
  "history (s\<lparr>llm := c, logs := l\<rparr>) = history s"
  "rules (s\<lparr>llm := c, logs := l\<rparr>) = rules s"
  "simulate_failure (llm (s\<lparr>llm := c, logs := l\<rparr>)) = simulate_failure c"
  by simp_all

lemma world_frame: "now (w\<lparr>uuid4 := u\<rparr>) = now w"
  by simp

theorem same_inputs_same_outcome_witness:
  "history (demo_engine_after_first\<lparr>llm := \<lparr>simulate_failure = False, call_count = 7\<rparr>, logs := []\<rparr>)
     = history demo_engine_after_first
   \<and> rules (demo_engine_after_first\<lparr>llm := \<lparr>simulate_failure = False, call_count = 7\<rparr>, logs := []\<rparr>)
     = rules demo_engine_after_first
   \<and> simulate_failure (llm (demo_engine_after_first
         \<lparr>llm := \<lparr>simulate_failure = False, call_count = 7\<rparr>, logs := []\<rparr>))
     = simulate_failure (llm demo_engine_after_first)
   \<and> now ((demo_world (mk_datetime 2026 2 27 9 5 0 (Some 0)))\<lparr>uuid4 := ''another-id''\<rparr>)
     = now (demo_world (mk_datetime 2026 2 27 9 5 0 (Some 0)))
   \<and> length (history demo_engine_after_first ''u1'') = 1
   \<and> length (logs demo_engine_after_first) = 1
   \<and> call_count (llm demo_engine_after_first) = 1
   \<and> outcome (fst (process_event demo_lib (demo_world (mk_datetime 2026 2 27 9 5 0 (Some 0)))
        demo_engine_after_first (demo_raw ''2026-02-27T09:00:00Z'')))
     = Inr (''NEVER'', ''DUPLICATE_TEXT_SIMILAR'')
   \<and> outcome (fst (process_event demo_lib
        ((demo_world (mk_datetime 2026 2 27 9 5 0 (Some 0)))\<lparr>uuid4 := ''another-id''\<rparr>)
        (demo_engine_after_first\<lparr>llm := \<lparr>simulate_failure = False, call_count = 7\<rparr>, logs := []\<rparr>)
        (demo_raw ''2026-02-27T09:00:00Z'')))
     = outcome (fst (process_event demo_lib (demo_world (mk_datetime 2026 2 27 9 5 0 (Some 0)))
        demo_engine_after_first (demo_raw ''2026-02-27T09:00:00Z'')))"
proof -
  have f0: "simulate_failure (llm demo_engine_after_first) = False" by code_simp
  note h = engine_frame(1)[where s = demo_engine_after_first
             and c = "\<lparr>simulate_failure = False, call_count = 7\<rparr>" and l = "[]"]
  note r = engine_frame(2)[where s = demo_engine_after_first
             and c = "\<lparr>simulate_failure = False, call_count = 7\<rparr>" and l = "[]"]
  have f: "simulate_failure (llm (demo_engine_after_first
         \<lparr>llm := \<lparr>simulate_failure = False, call_count = 7\<rparr>, logs := []\<rparr>))
     = simulate_failure (llm demo_engine_after_first)"
    unfolding f0 by (simp add: engine_frame(3))
  note n = world_frame[where w = "demo_world (mk_datetime 2026 2 27 9 5 0 (Some 0))"
             and u = "''another-id''"]
  have len: "length (history demo_engine_after_first ''u1'') = 1" by code_simp
  have lg: "length (logs demo_engine_after_first) = 1" by code_simp
  have cc: "call_count (llm demo_engine_after_first) = 1" by code_simp
  have oc: "outcome (fst (process_event demo_lib
        (demo_world (mk_datetime 2026 2 27 9 5 0 (Some 0)))
        demo_engine_after_first (demo_raw ''2026-02-27T09:00:00Z'')))
     = Inr (''NEVER'', ''DUPLICATE_TEXT_SIMILAR'')" by code_simp
  note same = same_inputs_same_outcome[OF h r f n]
  show ?thesis
    by (rule conjI[OF h conjI[OF r conjI[OF f conjI[OF n conjI[OF len conjI[OF lg
          conjI[OF cc conjI[OF oc same]]]]]]]])
qed

text \<open>
  Claim C3 as stated fails: with the same history store, rules and event, a call at 09:05
  finds the stored record inside the duplicate window and a call at 09:30 does not.
\<close>

theorem later_clock_changes_outcome:
  "outcome (fst (process_event demo_lib (demo_world (mk_datetime 2026 2 27 9 5 0 (Some 0)))
        (snd (process_event demo_lib (demo_world (mk_datetime 2026 2 27 9 1 0 (Some 0)))
           (DecisionEngine [] False) (demo_raw ''2026-02-27T09:00:00Z'')))
        (demo_raw ''2026-02-27T09:00:00Z'')))
     = Inr (''NEVER'', ''DUPLICATE_TEXT_SIMILAR'')
   \<and> outcome (fst (process_event demo_lib (demo_world (mk_datetime 2026 2 27 9 30 0 (Some 0)))
        (snd (process_event demo_lib (demo_world (mk_datetime 2026 2 27 9 1 0 (Some 0)))
           (DecisionEngine [] False) (demo_raw ''2026-02-27T09:00:00Z'')))
        (demo_raw ''2026-02-27T09:00:00Z'')))
     = Inr (''LATER'', ''LLM_DECISION'')"
  by code_simp

end
